theory Spec2Isabelle
  imports Main "HOL-Library.Sublist"
begin

section \<open>Data model (types.ts)\<close>

text \<open>
  \<^verbatim>\<open>AspectRatio = '1:1' | '4:5'\<close>, \<^verbatim>\<open>CarouselSegment\<close> and \<^verbatim>\<open>InstagramPostData\<close>
  as declared in \<^verbatim>\<open>types.ts\<close>. The field \<^verbatim>\<open>id\<close> is written \<open>id_seg\<close>, since
  \<open>id\<close> is the identity function of HOL. An optional field is an \<open>option\<close>.
\<close>

datatype AspectRatio = Ratio_1_1 | Ratio_4_5

record CarouselSegment =
  id_seg :: int
  logicalStep :: string
  keyMessage :: string
  visualPrompt :: string
  imageUrl :: "string option"

record InstagramPostData =
  caption :: string
  hashtags :: "string list"

text \<open>The two state enumerations of \<^verbatim>\<open>App.tsx\<close> and the status of the key dialog.\<close>

datatype WorkflowState = idle | planning | generating_images | generating_caption | completed

datatype ScreenState = home | planner

datatype TestStatus = status_idle | status_testing | status_success | status_error

section \<open>JavaScript values the code looks at\<close>

text \<open>
  A string-valued expression that may be \<^verbatim>\<open>undefined\<close> or \<^verbatim>\<open>null\<close> is a
  \<open>string option\<close>. It is truthy when it is a non-empty string; \<^verbatim>\<open>a || b\<close> is
  \<open>a\<close> when \<open>a\<close> is truthy and \<open>b\<close> otherwise.
\<close>

definition truthy :: "string option \<Rightarrow> bool" where
  "truthy v = (case v of None \<Rightarrow> False | Some s \<Rightarrow> s \<noteq> [])"

definition js_or :: "string option \<Rightarrow> string option \<Rightarrow> string option" where
  "js_or a b = (if truthy a then a else b)"

text \<open>
  \<^verbatim>\<open>s.includes(t)\<close>: \<open>t\<close> occurs in \<open>s\<close> as a contiguous run. Every needle in the
  code is ASCII, so the test is the same on bytes as on UTF-16 code units.
\<close>

fun js_includes :: "string \<Rightarrow> string \<Rightarrow> bool" where
  "js_includes [] t = (t = [])"
| "js_includes (c # s) t = (prefix t (c # s) \<or> js_includes s t)"

text \<open>
  A thrown value is a string or an object. An object is given by its own properties, in
  the order of \<^verbatim>\<open>Object.getOwnPropertyNames\<close>; a property value is a string or an
  integral number (other kinds of value are left out). \<open>message e\<close> is \<^verbatim>\<open>e.message\<close>,
  \<open>None\<close> for a value without a string of that name, such as a thrown string.
  \<open>new_Error m\<close> is \<^verbatim>\<open>new Error(m)\<close> without the properties the engine adds to it (its
  stack); only \<open>handleTest\<close> below serialises what it catches, and the one error it
  constructs itself is given the engine's properties there.
\<close>

datatype js_value = JString string | JNumber int

datatype thrown = Thrown_string string | Thrown_object "(string \<times> js_value) list"

definition message :: "thrown \<Rightarrow> string option" where
  "message e =
     (case e of
        Thrown_string s \<Rightarrow> None
      | Thrown_object props \<Rightarrow>
          (case map_of props ''message'' of
             None \<Rightarrow> None
           | Some (JNumber n) \<Rightarrow> None
           | Some (JString m) \<Rightarrow> Some m))"

definition new_Error :: "string \<Rightarrow> thrown" where
  "new_Error m = Thrown_object [(''message'', JString m)]"

text \<open>
  \<^verbatim>\<open>JSON.stringify(e, Object.getOwnPropertyNames(e))\<close> for an object \<open>e\<close>: every own
  property in order, names and string values quoted as JSON quotes them (the quote, the
  backslash and the control characters escaped), numbers in decimal.
\<close>

definition hex_digit :: "nat \<Rightarrow> char" where
  "hex_digit k = ''0123456789abcdef'' ! k"

definition json_escape :: "char \<Rightarrow> string" where
  "json_escape c =
     (if c = CHR 0x22 then [CHR 0x5C, CHR 0x22]
      else if c = CHR 0x5C then [CHR 0x5C, CHR 0x5C]
      else if c = CHR 0x08 then [CHR 0x5C, CHR ''b'']
      else if c = CHR 0x09 then [CHR 0x5C, CHR ''t'']
      else if c = CHR 0x0A then [CHR 0x5C, CHR ''n'']
      else if c = CHR 0x0C then [CHR 0x5C, CHR ''f'']
      else if c = CHR 0x0D then [CHR 0x5C, CHR ''r'']
      else if (of_char c :: nat) < 32
        then [CHR 0x5C, CHR ''u'', CHR ''0'', CHR ''0'',
              hex_digit (of_char c div 16), hex_digit (of_char c mod 16)]
      else [c])"

definition json_quote :: "string \<Rightarrow> string" where
  "json_quote s = [CHR 0x22] @ concat (map json_escape s) @ [CHR 0x22]"

function show_nat :: "nat \<Rightarrow> string" where
  "show_nat n =
     (if n < 10 then [''0123456789'' ! n]
      else show_nat (n div 10) @ [''0123456789'' ! (n mod 10)])"
  by pat_completeness auto
termination
  by (relation "measure (\<lambda>n. n)") auto

declare show_nat.simps [simp del]

definition show_int :: "int \<Rightarrow> string" where
  "show_int i = (if i < 0 then ''-'' @ show_nat (nat (- i)) else show_nat (nat i))"

definition json_value :: "js_value \<Rightarrow> string" where
  "json_value v = (case v of JString s \<Rightarrow> json_quote s | JNumber n \<Rightarrow> show_int n)"

fun json_members :: "(string \<times> js_value) list \<Rightarrow> string" where
  "json_members [] = []"
| "json_members [(k, v)] = json_quote k @ '':'' @ json_value v"
| "json_members ((k, v) # rest) = json_quote k @ '':'' @ json_value v @ '','' @ json_members rest"

definition JSON_stringify_own :: "(string \<times> js_value) list \<Rightarrow> string" where
  "JSON_stringify_own props = ''{'' @ json_members props @ ''}''"

section \<open>The provider's replies\<close>

text \<open>
  The provider (\<^verbatim>\<open>ai.models.generateContent\<close>) is outside the repository. A call to it
  either throws or returns a response; the reply is an argument of each model function.

  For the two structured calls the code reads \<^verbatim>\<open>response.text\<close> and hands it to
  \<^verbatim>\<open>JSON.parse\<close>. The text is represented by what these two steps make of it:
  \<^item> \<open>No_text\<close>: the text is \<^verbatim>\<open>undefined\<close> or empty (falsy);
  \<^item> \<open>Malformed_text e\<close>: a non-empty text that \<^verbatim>\<open>JSON.parse\<close> rejects by throwing \<open>e\<close>;
  \<^item> \<open>Json_text v\<close>: a text that \<^verbatim>\<open>JSON.parse\<close> turns into the value \<open>v\<close>.

  The plan request asks for an array of objects with the four required properties id,
  logicalStep, keyMessage and visualPrompt (ai.ts lines 239 to 251), and the code casts
  what \<^verbatim>\<open>JSON.parse\<close> returns to \<^verbatim>\<open>CarouselSegment[]\<close> without looking at it. A
  parsed plan is a list of \<open>PlanItem\<close>: the four properties and, since nothing in the
  code excludes it, an optional \<^verbatim>\<open>imageUrl\<close>. The cast does nothing at run time:
  each element becomes a segment with the same five values. Neither the number of
  elements nor the values of \<^verbatim>\<open>id\<close> are fixed by anything; the requested count is only
  written into the prompt text.
\<close>

datatype 'a reply = Threw thrown | Responded 'a

datatype 'a json_text = No_text | Malformed_text thrown | Json_text 'a

record PlanItem =
  item_id :: int
  item_logicalStep :: string
  item_keyMessage :: string
  item_visualPrompt :: string
  item_imageUrl :: "string option"

definition as_CarouselSegment :: "PlanItem \<Rightarrow> CarouselSegment" where
  "as_CarouselSegment p =
     \<lparr>id_seg = item_id p, logicalStep = item_logicalStep p, keyMessage = item_keyMessage p,
      visualPrompt = item_visualPrompt p, imageUrl = item_imageUrl p\<rparr>"

text \<open>
  The image response: \<^verbatim>\<open>response.candidates?.[0]?.content?.parts || []\<close>, each part
  with an optional \<^verbatim>\<open>inlineData\<close> object, whose \<^verbatim>\<open>data\<close> a template literal renders
  (\<^verbatim>\<open>undefined\<close> as the text "undefined").
\<close>

record InlineData =
  inline_bytes :: "string option"
  mimeType :: "string option"

record Part =
  part_text :: "string option"
  inlineData :: "InlineData option"

record Content =
  parts :: "Part list option"

record Candidate =
  content :: "Content option"

record GenerateContentResponse =
  candidates :: "Candidate list option"

definition response_parts :: "GenerateContentResponse \<Rightarrow> Part list" where
  "response_parts r =
     (case candidates r of
        None \<Rightarrow> []
      | Some [] \<Rightarrow> []
      | Some (c # _) \<Rightarrow>
          (case content c of
             None \<Rightarrow> []
           | Some ct \<Rightarrow> (case parts ct of None \<Rightarrow> [] | Some ps \<Rightarrow> ps)))"

definition template :: "string option \<Rightarrow> string" where
  "template v = (case v of None \<Rightarrow> ''undefined'' | Some s \<Rightarrow> s)"

section \<open>Application state\<close>

text \<open>
  Messages shown through \<^verbatim>\<open>alert\<close>, by the line of the source that shows them (the
  texts are Korean): the 20-image limit (App.tsx 47), the invalid-key notice (105), the
  generic automation failure with \<^verbatim>\<open>e.message\<close> (107); in the key dialog: both inputs
  needed (66), saved (76), saving failed (78), passphrase needed first (86), key loaded
  (104), reading or decrypting failed (107).
\<close>

datatype alert =
    Alert_max_20_images
  | Alert_invalid_key
  | Alert_automation_failed "string option"
  | Alert_key_and_password_needed
  | Alert_saved
  | Alert_save_failed
  | Alert_password_needed
  | Alert_loaded
  | Alert_load_failed

text \<open>
  The message line of the key dialog (\<^verbatim>\<open>setMessage\<close>): none yet, key missing (line 29),
  test passed (42), key valid though the service is busy (54), connection failed with
  \<^verbatim>\<open>e.message\<close>, or the fallback text when that is falsy (59).
\<close>

datatype dialog_message =
    Msg_none
  | Msg_enter_key
  | Msg_test_ok
  | Msg_valid_but_busy
  | Msg_connection_failed "string option"

text \<open>
  What a run shows to the outside, in order: the segment list and workflow state it
  publishes to React, the client calls it makes, what it logs and alerts, the files it
  offers for download, and the \<^verbatim>\<open>onKeyUpdated\<close> signal of the key dialog.
\<close>

datatype event =
    SetSegments "CarouselSegment list"
  | SetWorkflowState WorkflowState
  | Call_generatePlan string nat AspectRatio "string list"
  | Call_generateImage CarouselSegment AspectRatio "string list"
  | Call_generateInstagramPost string "CarouselSegment list"
  | Console_error thrown
  | Alert alert
  | SaveAs string string
  | OnKeyUpdated

text \<open>
  One record holds the state of \<^verbatim>\<open>App\<close> (lines 14 to 24), the state of
  \<^verbatim>\<open>ApiKeyManager\<close> (lines 14 to 17; its \<^verbatim>\<open>message\<close> is \<open>dialog\<close> here), the browser's
  \<^verbatim>\<open>localStorage\<close>, the two build-time environment values, the file readers that
  have been started and have not delivered yet (each with what it will deliver), and the
  trace of events.
\<close>

record state =
  screen :: ScreenState
  topic :: string
  count :: nat
  ratio :: AspectRatio
  referenceImages :: "string list"
  segments :: "CarouselSegment list"
  postData :: "InstagramPostData option"
  workflowState :: WorkflowState
  hasApiKey :: bool
  isKeyManagerOpen :: bool
  copied :: bool
  apiKey :: string
  password :: string
  status :: TestStatus
  dialog :: dialog_message
  localStorage :: "string \<rightharpoonup> string"
  env_API_KEY :: "string option"
  env_GEMINI_API_KEY :: "string option"
  pendingReaders :: "string option list"
  trace :: "event list"

definition emit :: "event \<Rightarrow> state \<Rightarrow> state" where
  "emit e st = st\<lparr>trace := trace st @ [e]\<rparr>"

definition setSegments :: "CarouselSegment list \<Rightarrow> state \<Rightarrow> state" where
  "setSegments v st = emit (SetSegments v) (st\<lparr>segments := v\<rparr>)"

definition setWorkflowState :: "WorkflowState \<Rightarrow> state \<Rightarrow> state" where
  "setWorkflowState v st = emit (SetWorkflowState v) (st\<lparr>workflowState := v\<rparr>)"

definition show_alert :: "alert \<Rightarrow> state \<Rightarrow> state" where
  "show_alert a st = emit (Alert a) st"

section \<open>Credential lookup and the generation client (services/ai.ts)\<close>

definition getApiKey :: "state \<Rightarrow> string option" where
  "getApiKey st =
     js_or (js_or (localStorage st ''CUSTOM_GEMINI_API_KEY'') (env_API_KEY st))
       (env_GEMINI_API_KEY st)"

definition checkApiKey :: "state \<Rightarrow> state" where
  "checkApiKey st = st\<lparr>hasApiKey := truthy (getApiKey st)\<rparr>"

text \<open>
  The three client functions. Each builds its request (prompt text and reference-image
  parts) from its arguments and sends it; the request reaches only the provider, whose
  reply \<open>rep\<close> is given. The first argument is the state the credential is read from.
\<close>

definition generatePlan ::
  "state \<Rightarrow> string \<Rightarrow> nat \<Rightarrow> AspectRatio \<Rightarrow> string list \<Rightarrow> PlanItem list json_text reply
    \<Rightarrow> thrown + CarouselSegment list" where
  "generatePlan st t n r refs rep =
     (if \<not> truthy (getApiKey st) then Inl (new_Error ''API Key is missing.'')
      else case rep of
        Threw e \<Rightarrow> Inl e
      | Responded No_text \<Rightarrow> Inl (new_Error ''Failed to generate plan'')
      | Responded (Malformed_text e) \<Rightarrow> Inl e
      | Responded (Json_text items) \<Rightarrow> Inr (map as_CarouselSegment items))"

fun first_inline :: "Part list \<Rightarrow> thrown + string" where
  "first_inline [] = Inl (new_Error ''Failed to generate image'')"
| "first_inline (p # ps) =
     (case inlineData p of
        Some d \<Rightarrow> Inr (''data:image/png;base64,'' @ template (inline_bytes d))
      | None \<Rightarrow> first_inline ps)"

definition generateImage ::
  "state \<Rightarrow> CarouselSegment \<Rightarrow> AspectRatio \<Rightarrow> string list \<Rightarrow> GenerateContentResponse reply
    \<Rightarrow> thrown + string" where
  "generateImage st segment r refs rep =
     (if \<not> truthy (getApiKey st) then Inl (new_Error ''API Key is missing.'')
      else case rep of
        Threw e \<Rightarrow> Inl e
      | Responded resp \<Rightarrow> first_inline (response_parts resp))"

definition generateInstagramPost ::
  "state \<Rightarrow> string \<Rightarrow> CarouselSegment list \<Rightarrow> InstagramPostData json_text reply
    \<Rightarrow> thrown + InstagramPostData" where
  "generateInstagramPost st t segs rep =
     (if \<not> truthy (getApiKey st) then Inl (new_Error ''API Key is missing.'')
      else case rep of
        Threw e \<Rightarrow> Inl e
      | Responded No_text \<Rightarrow> Inl (new_Error ''Failed to generate post data'')
      | Responded (Malformed_text e) \<Rightarrow> Inl e
      | Responded (Json_text post) \<Rightarrow> Inr post)"

section \<open>The workflow orchestrator (App.tsx)\<close>

text \<open>
  A run of \<^verbatim>\<open>handleStartAutomation\<close> is modelled as one step: it runs to its end, with
  the replies of the calls it awaits given, and no other handler runs in between. The
  replies of one run: one for the plan call, one for each image call (by the loop index
  of the call), one for the post call.
\<close>

record provider =
  plan_reply :: "PlanItem list json_text reply"
  image_reply :: "nat \<Rightarrow> GenerateContentResponse reply"
  post_reply :: "InstagramPostData json_text reply"

text \<open>The \<^verbatim>\<open>catch\<close> block of \<^verbatim>\<open>handleStartAutomation\<close> (lines 100 to 109).\<close>

definition credential_rejected :: "thrown \<Rightarrow> bool" where
  "credential_rejected e =
     (case message e of
        None \<Rightarrow> False
      | Some m \<Rightarrow> js_includes m ''Requested entity was not found'')"

definition handleStartAutomation_catch :: "thrown \<Rightarrow> state \<Rightarrow> state" where
  "handleStartAutomation_catch e st =
     (let st1 = setWorkflowState idle (emit (Console_error e) st)
      in if credential_rejected e
         then show_alert Alert_invalid_key (st1\<lparr>hasApiKey := False\<rparr>)
         else show_alert (Alert_automation_failed (message e)) st1)"

text \<open>
  The loop of lines 87 to 91, from index \<open>i\<close> on. \<^verbatim>\<open>newSegments[i].imageUrl = imgUrl\<close>
  writes into the object that the array published before also holds; the next statement
  publishes the array again, so the published list and \<open>newSegments\<close> hold the same
  values whenever anything can look at them.
\<close>

function image_loop ::
  "(nat \<Rightarrow> GenerateContentResponse reply) \<Rightarrow> nat \<Rightarrow> CarouselSegment list \<Rightarrow> state
    \<Rightarrow> (thrown + CarouselSegment list) \<times> state" where
  "image_loop img i newSegments st =
     (if i < length newSegments then
        (let st1 = emit (Call_generateImage (newSegments ! i) (ratio st) (referenceImages st)) st
         in case generateImage st1 (newSegments ! i) (ratio st) (referenceImages st) (img i) of
              Inl e \<Rightarrow> (Inl e, st1)
            | Inr imgUrl \<Rightarrow>
                (let updated = newSegments[i := (newSegments ! i)\<lparr>imageUrl := Some imgUrl\<rparr>]
                 in image_loop img (Suc i) updated (setSegments updated st1)))
      else (Inr newSegments, st))"
  by pat_completeness auto
termination
  by (relation "measure (\<lambda>(img, i, newSegments, st). length newSegments - i)") auto

declare image_loop.simps [simp del]

text \<open>
  Opening or closing the key dialog changes its \<^verbatim>\<open>isOpen\<close> property, on which the
  effect of ApiKeyManager.tsx lines 20 to 23 runs: it loads a stored key into the
  dialog's input. It does not run when the property is set to the value it has. The
  effect also runs when the dialog is mounted.
\<close>

definition useEffect_isOpen :: "state \<Rightarrow> state" where
  "useEffect_isOpen st =
     (case localStorage st ''CUSTOM_GEMINI_API_KEY'' of
        None \<Rightarrow> st
      | Some stored \<Rightarrow> if stored = [] then st else st\<lparr>apiKey := stored\<rparr>)"

definition setIsKeyManagerOpen :: "bool \<Rightarrow> state \<Rightarrow> state" where
  "setIsKeyManagerOpen b st =
     (if isKeyManagerOpen st = b then st
      else useEffect_isOpen (st\<lparr>isKeyManagerOpen := b\<rparr>))"

definition handleStartAutomation :: "provider \<Rightarrow> state \<Rightarrow> state" where
  "handleStartAutomation prov st =
     (if \<not> hasApiKey st then setIsKeyManagerOpen True st
      else if topic st = [] then st
      else
        let st1 = setSegments [] st;
            st2 = st1\<lparr>postData := None, copied := False\<rparr>;
            st3 = setWorkflowState planning st2;
            st4 = emit (Call_generatePlan (topic st) (count st) (ratio st) (referenceImages st)) st3
        in case generatePlan st4 (topic st) (count st) (ratio st) (referenceImages st)
                  (plan_reply prov) of
             Inl e \<Rightarrow> handleStartAutomation_catch e st4
           | Inr plan \<Rightarrow>
               (let st5 = setSegments plan st4;
                    st6 = setWorkflowState generating_images st5
                in case image_loop (image_reply prov) 0 plan st6 of
                     (Inl e, st7) \<Rightarrow> handleStartAutomation_catch e st7
                   | (Inr newSegments, st7) \<Rightarrow>
                       (let st8 = setWorkflowState generating_caption st7;
                            st9 = emit (Call_generateInstagramPost (topic st) newSegments) st8
                        in case generateInstagramPost st9 (topic st) newSegments
                                  (post_reply prov) of
                             Inl e \<Rightarrow> handleStartAutomation_catch e st9
                           | Inr post \<Rightarrow>
                               setWorkflowState completed (st9\<lparr>postData := Some post\<rparr>))))"

text \<open>
  \<^verbatim>\<open>handleGoHome\<close>, \<^verbatim>\<open>handleImageUpload\<close> and \<^verbatim>\<open>removeReferenceImage\<close>. An uploaded
  file is given by what its \<^verbatim>\<open>FileReader\<close> will deliver: \<open>Some url\<close> when \<^verbatim>\<open>onload\<close>
  fires with the result \<open>url\<close>, \<open>None\<close> when it fires with no result.
  \<open>handleImageUpload\<close> compares the number of images with the limit and starts one reader
  per file (lines 45 to 60); it appends nothing itself. Each reader delivers later, in a
  step of its own (\<open>reader_fires\<close>, for the reader at position \<open>i\<close> among the pending
  ones), and its callback \<open>reader_onload\<close> (lines 53 to 57) appends to whatever the set
  is by then. Other handlers, further uploads included, can run in between.
\<close>

definition handleGoHome :: "state \<Rightarrow> state" where
  "handleGoHome st =
     (setWorkflowState idle
        ((setSegments [] (st\<lparr>topic := []\<rparr>))\<lparr>referenceImages := [], postData := None\<rparr>))
     \<lparr>screen := home\<rparr>"

definition reader_onload :: "string option \<Rightarrow> state \<Rightarrow> state" where
  "reader_onload result st =
     (if truthy result
      then st\<lparr>referenceImages := referenceImages st @ [template result]\<rparr>
      else st)"

definition handleImageUpload :: "string option list \<Rightarrow> state \<Rightarrow> state" where
  "handleImageUpload files st =
     (if length (referenceImages st) + length files > 20
      then show_alert Alert_max_20_images st
      else st\<lparr>pendingReaders := pendingReaders st @ files\<rparr>)"

definition reader_fires :: "nat \<Rightarrow> state \<Rightarrow> state" where
  "reader_fires i st =
     (if i < length (pendingReaders st)
      then reader_onload (pendingReaders st ! i)
             (st\<lparr>pendingReaders := take i (pendingReaders st) @ drop (Suc i) (pendingReaders st)\<rparr>)
      else st)"

definition removeReferenceImage :: "nat \<Rightarrow> state \<Rightarrow> state" where
  "removeReferenceImage index st =
     st\<lparr>referenceImages :=
          map snd (filter (\<lambda>(i, _). i \<noteq> index)
                     (zip [0..<length (referenceImages st)] (referenceImages st)))\<rparr>"

section \<open>The key dialog (components/ApiKeyManager.tsx)\<close>

text \<open>
  \<^verbatim>\<open>App\<close> passes \<^verbatim>\<open>checkApiKey\<close> as \<^verbatim>\<open>onKeyUpdated\<close> (App.tsx line 647).
\<close>

definition onKeyUpdated :: "state \<Rightarrow> state" where
  "onKeyUpdated st = checkApiKey (emit OnKeyUpdated st)"

definition localStorage_setItem :: "string \<Rightarrow> string \<Rightarrow> state \<Rightarrow> state" where
  "localStorage_setItem k v st = st\<lparr>localStorage := (localStorage st)(k \<mapsto> v)\<rparr>"

text \<open>
  \<^verbatim>\<open>handleTest\<close>. \<open>rep\<close> is the reply to the test call, with \<^verbatim>\<open>response.text\<close> when it
  returns. \<open>errorString_of e\<close> is line 49: the thrown string itself, or the JSON text of
  the thrown object's own properties. \<open>service_overloaded\<close> is the condition of line 52.
  The error that line 46 constructs for a response without text has the own properties
  \<open>engine\<close> that the JavaScript engine gives it (its stack, or its file name and line)
  and the message "No response".
\<close>

definition errorString_of :: "thrown \<Rightarrow> string" where
  "errorString_of e =
     (case e of Thrown_string s \<Rightarrow> s | Thrown_object props \<Rightarrow> JSON_stringify_own props)"

definition service_overloaded :: "string \<Rightarrow> bool" where
  "service_overloaded errorString =
     (js_includes errorString ''503'' \<or> js_includes errorString ''UNAVAILABLE''
        \<or> js_includes errorString ''high demand'')"

definition handleTest_catch :: "thrown \<Rightarrow> state \<Rightarrow> state" where
  "handleTest_catch e st =
     (let errorString = errorString_of e
      in if service_overloaded errorString
         then onKeyUpdated
                (localStorage_setItem ''CUSTOM_GEMINI_API_KEY'' (apiKey st)
                   (st\<lparr>status := status_success, dialog := Msg_valid_but_busy\<rparr>))
         else st\<lparr>status := status_error,
                 dialog := Msg_connection_failed (js_or (message e) None)\<rparr>)"

definition handleTest ::
  "string option reply \<Rightarrow> (string \<times> js_value) list \<Rightarrow> state \<Rightarrow> state" where
  "handleTest rep engine st =
     (if apiKey st = [] then st\<lparr>dialog := Msg_enter_key, status := status_error\<rparr>
      else
        let st1 = st\<lparr>status := status_testing\<rparr>
        in case rep of
             Threw e \<Rightarrow> handleTest_catch e st1
           | Responded response_text \<Rightarrow>
               if truthy response_text
               then onKeyUpdated
                      (localStorage_setItem ''CUSTOM_GEMINI_API_KEY'' (apiKey st1)
                         (st1\<lparr>status := status_success, dialog := Msg_test_ok\<rparr>))
               else handleTest_catch
                      (Thrown_object (engine @ [(''message'', JString ''No response'')])) st1)"

text \<open>
  \<^verbatim>\<open>handleSave\<close> and \<^verbatim>\<open>handleLoad\<close> call \<^verbatim>\<open>JSON\<close> and the CryptoJS library, which are
  not part of the repository; what they compute is a parameter:
  \<^item> \<open>JSON_stringify_key k\<close>: \<^verbatim>\<open>JSON.stringify({ GEMINI_API_KEY: k })\<close>;
  \<^item> \<open>AES_encrypt data pass\<close>: \<^verbatim>\<open>CryptoJS.AES.encrypt(data, pass).toString()\<close>, or \<open>None\<close>
    when the call (or the download that follows it) throws;
  \<^item> \<open>AES_decrypt_utf8 blob pass\<close>:
    \<^verbatim>\<open>CryptoJS.AES.decrypt(blob, pass).toString(CryptoJS.enc.Utf8)\<close>, which throws on
    bytes that are not UTF-8 (\<open>Malformed_utf8\<close>) or returns a text, possibly empty;
  \<^item> \<open>JSON_parse_payload t\<close>: \<^verbatim>\<open>JSON.parse(t)\<close>, as far as line 100 looks at it: a
    SyntaxError (\<open>Not_json\<close>), \<^verbatim>\<open>null\<close>, whose property access throws (\<open>Json_null\<close>), or
    any other value with its \<^verbatim>\<open>GEMINI_API_KEY\<close> property, a string when present.
\<close>

datatype decrypted = Malformed_utf8 | Plaintext string

datatype payload = Not_json | Json_null | Json_value "string option"

record library =
  JSON_stringify_key :: "string \<Rightarrow> string"
  AES_encrypt :: "string \<Rightarrow> string \<Rightarrow> string option"
  AES_decrypt_utf8 :: "string \<Rightarrow> string \<Rightarrow> decrypted"
  JSON_parse_payload :: "string \<Rightarrow> payload"

definition handleSave :: "library \<Rightarrow> state \<Rightarrow> state" where
  "handleSave lib st =
     (if apiKey st = [] \<or> password st = [] then show_alert Alert_key_and_password_needed st
      else case AES_encrypt lib (JSON_stringify_key lib (apiKey st)) (password st) of
             None \<Rightarrow> show_alert Alert_save_failed st
           | Some encrypted \<Rightarrow>
               show_alert Alert_saved
                 (onKeyUpdated
                    (localStorage_setItem ''CUSTOM_GEMINI_API_KEY'' (apiKey st)
                       (emit (SaveAs encrypted ''api-keys.enc'') st))))"

text \<open>
  \<open>file\<close> is the text of the chosen file, \<open>None\<close> when no file was chosen.
  \<open>reader_onload_enc\<close> is the \<^verbatim>\<open>onload\<close> callback of lines 92 to 109 and
  \<open>import_payload\<close> its lines 99 to 108, after \<^verbatim>\<open>JSON.parse\<close>.
\<close>

definition import_payload :: "payload \<Rightarrow> state \<Rightarrow> state" where
  "import_payload parsed st =
     (case parsed of
        Not_json \<Rightarrow> show_alert Alert_load_failed st
      | Json_null \<Rightarrow> show_alert Alert_load_failed st
      | Json_value None \<Rightarrow> st
      | Json_value (Some k) \<Rightarrow>
          if k = [] then st
          else show_alert Alert_loaded
                 (onKeyUpdated
                    (localStorage_setItem ''CUSTOM_GEMINI_API_KEY'' k (st\<lparr>apiKey := k\<rparr>))))"

definition reader_onload_enc :: "library \<Rightarrow> string \<Rightarrow> state \<Rightarrow> state" where
  "reader_onload_enc lib encrypted st =
     (case AES_decrypt_utf8 lib encrypted (password st) of
        Malformed_utf8 \<Rightarrow> show_alert Alert_load_failed st
      | Plaintext decryptedText \<Rightarrow>
          if decryptedText = [] then show_alert Alert_load_failed st
          else import_payload (JSON_parse_payload lib decryptedText) st)"

definition handleLoad :: "library \<Rightarrow> string option \<Rightarrow> state \<Rightarrow> state" where
  "handleLoad lib file st =
     (case file of
        None \<Rightarrow> st
      | Some encrypted \<Rightarrow>
          if password st = [] then show_alert Alert_password_needed st
          else reader_onload_enc lib encrypted st)"

section \<open>The application as a whole\<close>

text \<open>
  The state when \<^verbatim>\<open>App\<close> has mounted (the initial values of lines 14 to 24 and of the
  key dialog, then the mount effects of App.tsx lines 26 to 28 and of the dialog), for a
  given content of \<^verbatim>\<open>localStorage\<close> and of the two environment values; and the steps
  that can follow: the handlers a user can trigger, with what the outside world answers
  to each, and the delivery of a pending file reader. The plain input setters are
  included.
\<close>

definition initial_state :: "(string \<rightharpoonup> string) \<Rightarrow> string option \<Rightarrow> string option \<Rightarrow> state" where
  "initial_state storage api_key gemini_api_key =
     useEffect_isOpen (checkApiKey
       \<lparr>screen = home, topic = [], count = 5, ratio = Ratio_1_1, referenceImages = [],
        segments = [], postData = None, workflowState = idle, hasApiKey = True,
        isKeyManagerOpen = False, copied = False, apiKey = [], password = [],
        status = status_idle, dialog = Msg_none, localStorage = storage,
        env_API_KEY = api_key, env_GEMINI_API_KEY = gemini_api_key, pendingReaders = [],
        trace = []\<rparr>)"

datatype action =
    GoHome
  | GoPlanner
  | SetTopic string
  | SetCount nat
  | SetRatio AspectRatio
  | ImageUpload "string option list"
  | ReaderFires nat
  | RemoveReferenceImage nat
  | StartAutomation provider
  | OpenKeyManager
  | CloseKeyManager
  | SetApiKey string
  | SetPassword string
  | TestKey "string option reply" "(string \<times> js_value) list"
  | SaveKey library
  | LoadKey library "string option"

fun perform :: "action \<Rightarrow> state \<Rightarrow> state" where
  "perform GoHome st = handleGoHome st"
| "perform GoPlanner st = st\<lparr>screen := planner\<rparr>"
| "perform (SetTopic t) st = st\<lparr>topic := t\<rparr>"
| "perform (SetCount n) st = st\<lparr>count := n\<rparr>"
| "perform (SetRatio r) st = st\<lparr>ratio := r\<rparr>"
| "perform (ImageUpload files) st = handleImageUpload files st"
| "perform (ReaderFires i) st = reader_fires i st"
| "perform (RemoveReferenceImage index) st = removeReferenceImage index st"
| "perform (StartAutomation prov) st = handleStartAutomation prov st"
| "perform OpenKeyManager st = setIsKeyManagerOpen True st"
| "perform CloseKeyManager st = setIsKeyManagerOpen False st"
| "perform (SetApiKey k) st = st\<lparr>apiKey := k\<rparr>"
| "perform (SetPassword p) st = st\<lparr>password := p\<rparr>"
| "perform (TestKey rep engine) st = handleTest rep engine st"
| "perform (SaveKey lib) st = handleSave lib st"
| "perform (LoadKey lib file) st = handleLoad lib file st"

section \<open>Describing a run\<close>

text \<open>
  \<open>with_images url i j xs\<close> is the list \<open>xs\<close> in which the segments at the positions
  \<open>i\<close> up to \<open>j - 1\<close> carry the image \<open>url m\<close> of their position \<open>m\<close> and all others are
  as they were. \<open>image_events\<close> lists, for these positions in order, the image call for
  the segment and the publication that follows it. \<open>start_events\<close> is what a run shows
  up to the moment it enters the image phase with the plan \<open>plan\<close>.
\<close>

definition with_images ::
  "(nat \<Rightarrow> string) \<Rightarrow> nat \<Rightarrow> nat \<Rightarrow> CarouselSegment list \<Rightarrow> CarouselSegment list" where
  "with_images url i j xs =
     map (\<lambda>(m, s). if i \<le> m \<and> m < j then s\<lparr>imageUrl := Some (url m)\<rparr> else s)
       (zip [0..<length xs] xs)"

definition image_events ::
  "(nat \<Rightarrow> string) \<Rightarrow> AspectRatio \<Rightarrow> string list \<Rightarrow> nat \<Rightarrow> nat \<Rightarrow> CarouselSegment list
    \<Rightarrow> event list" where
  "image_events url r refs i j xs =
     concat (map (\<lambda>m. [Call_generateImage (xs ! m) r refs,
                       SetSegments (with_images url i (Suc m) xs)])
               [i..<j])"

definition start_events :: "state \<Rightarrow> CarouselSegment list \<Rightarrow> event list" where
  "start_events st plan =
     [SetSegments [], SetWorkflowState planning,
      Call_generatePlan (topic st) (count st) (ratio st) (referenceImages st),
      SetSegments plan, SetWorkflowState generating_images]"

text \<open>
  \<open>failure_events e\<close> is what the \<^verbatim>\<open>catch\<close> block shows for the thrown value \<open>e\<close>;
  \<open>caption_events res\<close> is what the run shows after the post call returned \<open>res\<close>.
\<close>

definition failure_alert :: "thrown \<Rightarrow> alert" where
  "failure_alert e =
     (if credential_rejected e then Alert_invalid_key else Alert_automation_failed (message e))"

definition failure_events :: "thrown \<Rightarrow> event list" where
  "failure_events e = [Console_error e, SetWorkflowState idle, Alert (failure_alert e)]"

definition caption_events :: "thrown + InstagramPostData \<Rightarrow> event list" where
  "caption_events res =
     (case res of Inl e \<Rightarrow> failure_events e | Inr post \<Rightarrow> [SetWorkflowState completed])"

section \<open>Example inputs\<close>

text \<open>
  Concrete inputs at which the theorems below are evaluated: a state whose stored
  credential is \<open>KEY-1\<close>, plan items, an image response whose second part carries inline
  data, and a provider whose plan has five items, whose first image call succeeds and
  whose later image calls throw a given value.
\<close>

definition example_state :: state where
  "example_state =
     \<lparr>screen = planner, topic = ''time'', count = 5, ratio = Ratio_1_1, referenceImages = [],
      segments = [], postData = None, workflowState = idle, hasApiKey = True,
      isKeyManagerOpen = False, copied = False, apiKey = ''KEY-2'', password = ''pw'',
      status = status_idle, dialog = Msg_none,
      localStorage = [''CUSTOM_GEMINI_API_KEY'' \<mapsto> ''KEY-1''],
      env_API_KEY = None, env_GEMINI_API_KEY = None, pendingReaders = [], trace = []\<rparr>"

definition example_item :: "int \<Rightarrow> PlanItem" where
  "example_item n =
     \<lparr>item_id = n, item_logicalStep = ''Hook'', item_keyMessage = ''msg'',
      item_visualPrompt = ''a table'', item_imageUrl = None\<rparr>"

definition example_response :: GenerateContentResponse where
  "example_response =
     \<lparr>candidates = Some
        [\<lparr>content = Some
            \<lparr>parts = Some
               [\<lparr>part_text = Some ''done'', inlineData = None\<rparr>,
                \<lparr>part_text = None,
                 inlineData = Some \<lparr>inline_bytes = Some ''AAAA'',
                                     mimeType = Some ''image/png''\<rparr>\<rparr>]\<rparr>\<rparr>]\<rparr>"

definition text_only_response :: GenerateContentResponse where
  "text_only_response =
     \<lparr>candidates = Some
        [\<lparr>content = Some \<lparr>parts = Some [\<lparr>part_text = Some ''no'', inlineData = None\<rparr>]\<rparr>\<rparr>]\<rparr>"

definition example_provider :: "thrown \<Rightarrow> provider" where
  "example_provider e =
     \<lparr>plan_reply = Responded (Json_text (map example_item [1, 2, 3, 4, 5])),
      image_reply = (\<lambda>i. if i = 0 then Responded example_response else Threw e),
      post_reply = Responded No_text\<rparr>"

text \<open>
  A provider whose plan already carries an image address on its first and third item;
  and a rejection of an invalid key as the provider's client throws it, an error object
  whose stack names a script file with 503 among the digits of its name.
\<close>

definition prefilled_items :: "PlanItem list" where
  "prefilled_items =
     [(example_item 1)\<lparr>item_imageUrl := Some ''https://example.com/1.png''\<rparr>,
      example_item 2,
      (example_item 3)\<lparr>item_imageUrl := Some ''https://example.com/3.png''\<rparr>,
      example_item 4, example_item 5]"

definition prefilled_provider :: "thrown \<Rightarrow> provider" where
  "prefilled_provider e =
     \<lparr>plan_reply = Responded (Json_text prefilled_items),
      image_reply = (\<lambda>i. if i = 0 then Responded example_response else Threw e),
      post_reply = Responded No_text\<rparr>"

text \<open>
  Two errors with which the provider rejects a key, as an engine that records a stack
  gives them to \<^verbatim>\<open>Object.getOwnPropertyNames\<close>: the same message, thrown from the scripts
  \<open>index-17.js\<close> and \<open>index-25038.js\<close>.
\<close>

definition rejected_key_error :: thrown where
  "rejected_key_error =
     Thrown_object
       [(''stack'', JString (''Error: API key not valid. Please pass a valid API key.''
                             @ [CHR 0x0A] @ ''    at https://app.example/assets/index-17.js:40:11'')),
        (''message'', JString ''API key not valid. Please pass a valid API key.'')]"

definition invalid_key_error :: thrown where
  "invalid_key_error =
     Thrown_object
       [(''stack'', JString (''Error: API key not valid. Please pass a valid API key.''
                             @ [CHR 0x0A] @ ''    at https://app.example/assets/index-25038.js:40:11'')),
        (''message'', JString ''API key not valid. Please pass a valid API key.'')]"

text \<open>
  A provider that rejects the credential at the first call, and stand-ins for the two
  libraries of the key dialog: the encrypted file \<open>U2FsdGVkX1+blob\<close> decrypts under
  the passphrase \<open>pw\<close> to the text \<open>{}\<close>, which parses to an object without a
  \<^verbatim>\<open>GEMINI_API_KEY\<close> property.
\<close>

definition rejecting_provider :: provider where
  "rejecting_provider =
     \<lparr>plan_reply = Threw (new_Error ''Requested entity was not found.''),
      image_reply = (\<lambda>i. Responded example_response),
      post_reply = Responded No_text\<rparr>"

text \<open>
  A library that agrees with CryptoJS and \<^verbatim>\<open>JSON\<close> at the inputs used below (elsewhere
  it reports a failure, whatever the real ones do): the key \<open>KEY-2\<close> serialises to
  \<open>sample_json\<close>; encrypted under the passphrase \<open>pw\<close> (AES-256-CBC, key and vector
  derived by MD5 from the passphrase and the salt 0102030405060708) it is the file
  \<open>sample_blob\<close>. CryptoJS removes the padding without checking it: it drops as many
  bytes as the last decrypted byte says. Under the wrong passphrase \<open>wrong\<close> that byte is
  94, more than the 32 bytes there are, and the text is empty. Under the wrong passphrase
  \<open>wrong132\<close> it is 31, which keeps one byte, the digit 8, and \<^verbatim>\<open>JSON.parse\<close> reads it as
  the number 8.
\<close>

definition sample_json :: string where
  "sample_json =
     [CHR ''{'', CHR 0x22] @ ''GEMINI_API_KEY'' @ [CHR 0x22, CHR '':'', CHR 0x22] @ ''KEY-2''
       @ [CHR 0x22, CHR ''}'']"

definition sample_blob :: string where
  "sample_blob = ''U2FsdGVkX18BAgMEBQYHCDgjFcYBJd+R/9pEC2KlySzt3FgnpsduUeDvB1CdBD46''"

definition cryptojs_sample :: library where
  "cryptojs_sample =
     \<lparr>JSON_stringify_key =
        (\<lambda>k. [CHR ''{'', CHR 0x22] @ ''GEMINI_API_KEY'' @ [CHR 0x22, CHR '':'', CHR 0x22] @ k
               @ [CHR 0x22, CHR ''}'']),
      AES_encrypt = (\<lambda>d p. if d = sample_json \<and> p = ''pw'' then Some sample_blob else None),
      AES_decrypt_utf8 =
        (\<lambda>b p. if b = sample_blob \<and> p = ''pw'' then Plaintext sample_json
                else if b = sample_blob \<and> p = ''wrong'' then Plaintext []
                else if b = sample_blob \<and> p = ''wrong132'' then Plaintext ''8''
                else Malformed_utf8),
      JSON_parse_payload =
        (\<lambda>t. if t = sample_json then Json_value (Some ''KEY-2'')
              else if t = ''8'' then Json_value None
              else Not_json)\<rparr>"

definition example_library :: library where
  "example_library =
     \<lparr>JSON_stringify_key =
        (\<lambda>k. [CHR ''{'', CHR 0x22] @ ''GEMINI_API_KEY'' @ [CHR 0x22, CHR '':'', CHR 0x22] @ k
               @ [CHR 0x22, CHR ''}'']),
      AES_encrypt = (\<lambda>d p. Some ''U2FsdGVkX1+blob''),
      AES_decrypt_utf8 =
        (\<lambda>b p. if b = ''U2FsdGVkX1+blob'' \<and> p = ''pw'' then Plaintext ''{}''
                else Malformed_utf8),
      JSON_parse_payload = (\<lambda>t. if t = ''{}'' then Json_value None else Not_json)\<rparr>"

section \<open>The generation client\<close>

lemma getApiKey_cong:
  "localStorage st' = localStorage st \<Longrightarrow> env_API_KEY st' = env_API_KEY st \<Longrightarrow>
   env_GEMINI_API_KEY st' = env_GEMINI_API_KEY st \<Longrightarrow> getApiKey st' = getApiKey st"
  by (simp add: getApiKey_def)

lemma generateImage_state:
  "getApiKey st' = getApiKey st \<Longrightarrow>
     generateImage st' seg r refs rep = generateImage st seg r refs rep"
  by (simp add: generateImage_def)

lemma generatePlan_state:
  "getApiKey st' = getApiKey st \<Longrightarrow>
     generatePlan st' t n r refs rep = generatePlan st t n r refs rep"
  by (simp add: generatePlan_def)

lemma getApiKey_example [simp]: "getApiKey example_state = Some ''KEY-1''"
  by (simp add: getApiKey_def example_state_def js_or_def truthy_def)

lemma message_new_Error [simp]: "message (new_Error m) = Some m"
  by (simp add: message_def new_Error_def)

lemma first_inline_Inr:
  "first_inline ps = Inr url \<longleftrightarrow>
     (\<exists>before p d after. ps = before @ p # after \<and>
        list_all (\<lambda>q. inlineData q = None) before \<and> inlineData p = Some d \<and>
        url = ''data:image/png;base64,'' @ template (inline_bytes d))"
proof (induction ps)
  case Nil
  show ?case by simp
next
  case (Cons a ps)
  show ?case
  proof (cases "inlineData a")
    case None
    have "(\<exists>before p d after. a # ps = before @ p # after \<and>
            list_all (\<lambda>q. inlineData q = None) before \<and> inlineData p = Some d \<and>
            url = ''data:image/png;base64,'' @ template (inline_bytes d)) \<longleftrightarrow>
          (\<exists>before p d after. ps = before @ p # after \<and>
            list_all (\<lambda>q. inlineData q = None) before \<and> inlineData p = Some d \<and>
            url = ''data:image/png;base64,'' @ template (inline_bytes d))"
      (is "?L \<longleftrightarrow> ?R")
    proof
      assume ?L
      then obtain before p d after where h: "a # ps = before @ p # after"
        "list_all (\<lambda>q. inlineData q = None) before" "inlineData p = Some d"
        "url = ''data:image/png;base64,'' @ template (inline_bytes d)"
        by blast
      from h(1,3) None obtain rest where "before = a # rest"
        by (cases before) auto
      with h show ?R by auto
    next
      assume ?R
      then obtain before p d after where h: "ps = before @ p # after"
        "list_all (\<lambda>q. inlineData q = None) before" "inlineData p = Some d"
        "url = ''data:image/png;base64,'' @ template (inline_bytes d)"
        by blast
      have "a # ps = (a # before) @ p # after" using h(1) by simp
      moreover have "list_all (\<lambda>q. inlineData q = None) (a # before)" using h(2) None by simp
      ultimately show ?L using h(3,4) by blast
    qed
    then show ?thesis using None Cons.IH by simp
  next
    case (Some d)
    have "(\<exists>before p d' after. a # ps = before @ p # after \<and>
            list_all (\<lambda>q. inlineData q = None) before \<and> inlineData p = Some d' \<and>
            url = ''data:image/png;base64,'' @ template (inline_bytes d')) \<longleftrightarrow>
          url = ''data:image/png;base64,'' @ template (inline_bytes d)"
      (is "?L \<longleftrightarrow> ?R")
    proof
      assume ?L
      then obtain before p d' after where h: "a # ps = before @ p # after"
        "list_all (\<lambda>q. inlineData q = None) before" "inlineData p = Some d'"
        "url = ''data:image/png;base64,'' @ template (inline_bytes d')"
        by blast
      have "before = []"
      proof (cases before)
        case Nil
        then show ?thesis .
      next
        case (Cons b rest)
        then have "b = a" using h(1) by simp
        then show ?thesis using h(2) Cons Some by simp
      qed
      then show ?R using h Some by simp
    next
      assume ?R
      then have "a # ps = [] @ a # ps \<and> list_all (\<lambda>q. inlineData q = None) [] \<and>
          inlineData a = Some d \<and> url = ''data:image/png;base64,'' @ template (inline_bytes d)"
        using Some by simp
      then show ?L by blast
    qed
    then show ?thesis using Some by auto
  qed
qed

lemma first_inline_none:
  "list_all (\<lambda>q. inlineData q = None) ps \<Longrightarrow>
     first_inline ps = Inl (new_Error ''Failed to generate image'')"
  by (induction ps) simp_all

text \<open>
  Claim C8. A call to \<open>generateImage\<close> that succeeds was answered by a response, and its
  result is the text \<open>data:image/png;base64,\<close> followed by the data of the first content
  part that has inline data (all parts before it have none). Conversely, with a
  credential present, a response with such a part makes the call succeed with that
  value. With a credential present and a response in which no part has inline data, the
  call fails with the error "Failed to generate image", which is not the error of a
  missing credential.
\<close>

theorem generateImage_first_inline_payload:
  "(generateImage st seg r refs rep = Inr url \<longrightarrow>
      (\<exists>resp before p d after.
         rep = Responded resp \<and> response_parts resp = before @ p # after \<and>
         list_all (\<lambda>q. inlineData q = None) before \<and> inlineData p = Some d \<and>
         url = ''data:image/png;base64,'' @ template (inline_bytes d) \<and>
         prefix ''data:image/png;base64,'' url))
   \<and> (truthy (getApiKey st1) \<and> response_parts resp1 = before1 @ p1 # after1 \<and>
        list_all (\<lambda>q. inlineData q = None) before1 \<and> inlineData p1 = Some d1 \<longrightarrow>
        generateImage st1 seg1 r1 refs1 (Responded resp1) =
          Inr (''data:image/png;base64,'' @ template (inline_bytes d1)))
   \<and> (truthy (getApiKey st2) \<and> list_all (\<lambda>q. inlineData q = None) (response_parts resp2) \<longrightarrow>
        generateImage st2 seg2 r2 refs2 (Responded resp2) =
          Inl (new_Error ''Failed to generate image''))
   \<and> new_Error ''Failed to generate image'' \<noteq> new_Error ''API Key is missing.''"
proof (intro conjI impI)
  assume ok: "generateImage st seg r refs rep = Inr url"
  then obtain resp where rep: "rep = Responded resp"
    and fi: "first_inline (response_parts resp) = Inr url"
    by (cases rep) (auto simp add: generateImage_def split: if_splits)
  from fi obtain before p d after where
    "response_parts resp = before @ p # after" "list_all (\<lambda>q. inlineData q = None) before"
    "inlineData p = Some d" "url = ''data:image/png;base64,'' @ template (inline_bytes d)"
    unfolding first_inline_Inr by blast
  moreover from this have "prefix ''data:image/png;base64,'' url" by simp
  ultimately show "\<exists>resp before p d after.
         rep = Responded resp \<and> response_parts resp = before @ p # after \<and>
         list_all (\<lambda>q. inlineData q = None) before \<and> inlineData p = Some d \<and>
         url = ''data:image/png;base64,'' @ template (inline_bytes d) \<and>
         prefix ''data:image/png;base64,'' url"
    using rep by blast
next
  assume h: "truthy (getApiKey st1) \<and> response_parts resp1 = before1 @ p1 # after1 \<and>
        list_all (\<lambda>q. inlineData q = None) before1 \<and> inlineData p1 = Some d1"
  then have "first_inline (response_parts resp1) =
      Inr (''data:image/png;base64,'' @ template (inline_bytes d1))"
    unfolding first_inline_Inr by blast
  then show "generateImage st1 seg1 r1 refs1 (Responded resp1) =
          Inr (''data:image/png;base64,'' @ template (inline_bytes d1))"
    using h by (simp add: generateImage_def)
next
  assume "truthy (getApiKey st2) \<and> list_all (\<lambda>q. inlineData q = None) (response_parts resp2)"
  then show "generateImage st2 seg2 r2 refs2 (Responded resp2) =
          Inl (new_Error ''Failed to generate image'')"
    by (simp add: generateImage_def first_inline_none)
next
  show "new_Error ''Failed to generate image'' \<noteq> new_Error ''API Key is missing.''"
    by (simp add: new_Error_def)
qed

theorem generateImage_first_inline_payload_witness:
  "generateImage example_state (as_CarouselSegment (example_item 1)) Ratio_1_1 []
       (Responded example_response) = Inr ''data:image/png;base64,AAAA''
   \<and> truthy (getApiKey example_state)
   \<and> list_all (\<lambda>q. inlineData q = None) (response_parts text_only_response)
   \<and> generateImage example_state (as_CarouselSegment (example_item 1)) Ratio_1_1 []
       (Responded text_only_response) = Inl (new_Error ''Failed to generate image'')"
proof -
  have parts: "response_parts example_response =
      [\<lparr>part_text = Some ''done'', inlineData = None\<rparr>] @
      \<lparr>part_text = None,
        inlineData = Some \<lparr>inline_bytes = Some ''AAAA'', mimeType = Some ''image/png''\<rparr>\<rparr> # []"
    by (simp add: response_parts_def example_response_def)
  have key: "truthy (getApiKey example_state)" by (simp add: truthy_def)
  have none: "list_all (\<lambda>q. inlineData q = None) (response_parts text_only_response)"
    by (simp add: response_parts_def text_only_response_def)
  show ?thesis
    using generateImage_first_inline_payload
      [of example_state "as_CarouselSegment (example_item 1)" Ratio_1_1 "[]"
          "Responded example_response" "''data:image/png;base64,AAAA''"
          example_state example_response
          "[\<lparr>part_text = Some ''done'', inlineData = None\<rparr>]"
          "\<lparr>part_text = None,
            inlineData = Some \<lparr>inline_bytes = Some ''AAAA'', mimeType = Some ''image/png''\<rparr>\<rparr>"
          "[]" "\<lparr>inline_bytes = Some ''AAAA'', mimeType = Some ''image/png''\<rparr>"
          "as_CarouselSegment (example_item 1)" Ratio_1_1 "[]"
          example_state text_only_response
          "as_CarouselSegment (example_item 1)" Ratio_1_1 "[]"]
      parts key none
    by (simp add: template_def)
qed

text \<open>
  Claim C1, as stated, fails: the requested count is 3, the provider answers with two
  items that both carry the id 7, and \<open>generatePlan\<close> succeeds with exactly these two.
\<close>

theorem generatePlan_count_counterexample:
  "generatePlan example_state ''time'' 3 Ratio_1_1 []
       (Responded (Json_text [example_item 7, example_item 7]))
     = Inr [as_CarouselSegment (example_item 7), as_CarouselSegment (example_item 7)]
   \<and> length [as_CarouselSegment (example_item 7), as_CarouselSegment (example_item 7)] \<noteq> 3
   \<and> map id_seg [as_CarouselSegment (example_item 7), as_CarouselSegment (example_item 7)]
       = [7, 7]"
  by (simp add: generatePlan_def truthy_def as_CarouselSegment_def example_item_def)

text \<open>
  Claim C1, amended. Every successful call to \<open>generatePlan\<close> returns exactly the array
  that the provider's response text parses to, in the provider's order, whatever the
  requested count \<open>n\<close>: its length is the length of that array and its ids are the ids
  the provider wrote. With a credential present, every such response makes the call
  succeed, for every \<open>n\<close>.
\<close>

theorem generatePlan_returns_parsed_array:
  "(generatePlan st t n r refs rep = Inr segs \<longrightarrow>
      (\<exists>items. rep = Responded (Json_text items) \<and> segs = map as_CarouselSegment items \<and>
         length segs = length items \<and> map id_seg segs = map item_id items))
   \<and> (truthy (getApiKey st1) \<longrightarrow>
        generatePlan st1 t1 n1 r1 refs1 (Responded (Json_text items1)) =
          Inr (map as_CarouselSegment items1))"
proof (intro conjI impI)
  assume "generatePlan st t n r refs rep = Inr segs"
  then obtain items where "rep = Responded (Json_text items)"
    "segs = map as_CarouselSegment items"
    by (auto simp add: generatePlan_def split: if_splits reply.splits json_text.splits)
  moreover have "map id_seg (map as_CarouselSegment items) = map item_id items"
    by (simp add: as_CarouselSegment_def)
  ultimately show "\<exists>items. rep = Responded (Json_text items) \<and>
      segs = map as_CarouselSegment items \<and> length segs = length items \<and>
      map id_seg segs = map item_id items"
    by auto
next
  assume "truthy (getApiKey st1)"
  then show "generatePlan st1 t1 n1 r1 refs1 (Responded (Json_text items1)) =
          Inr (map as_CarouselSegment items1)"
    by (simp add: generatePlan_def)
qed

theorem generatePlan_returns_parsed_array_witness:
  "truthy (getApiKey example_state)
   \<and> generatePlan example_state ''time'' 3 Ratio_1_1 []
       (Responded (Json_text [example_item 1, example_item 2]))
     = Inr (map as_CarouselSegment [example_item 1, example_item 2])"
proof -
  have key: "truthy (getApiKey example_state)" by (simp add: truthy_def)
  show ?thesis
    using generatePlan_returns_parsed_array
      [of example_state "''time''" 3 Ratio_1_1 "[]"
          "Responded (Json_text [example_item 1, example_item 2])"
          "map as_CarouselSegment [example_item 1, example_item 2]"
          example_state "''time''" 3 Ratio_1_1 "[]" "[example_item 1, example_item 2]"]
      key
    by simp
qed


section \<open>The image loop\<close>

lemma length_with_images [simp]: "length (with_images url i j xs) = length xs"
  by (simp add: with_images_def)

lemma nth_with_images:
  "m < length xs \<Longrightarrow>
     with_images url i j xs ! m =
       (if i \<le> m \<and> m < j then (xs ! m)\<lparr>imageUrl := Some (url m)\<rparr> else xs ! m)"
  by (simp add: with_images_def)

lemma with_images_empty [simp]: "with_images url i i xs = xs"
  by (rule nth_equalityI) (auto simp add: nth_with_images)

lemma with_images_Suc:
  "i \<le> j \<Longrightarrow> j < length xs \<Longrightarrow>
     (with_images url i j xs)[j := (with_images url i j xs ! j)\<lparr>imageUrl := Some (url j)\<rparr>]
       = with_images url i (Suc j) xs"
  by (rule nth_equalityI) (auto simp add: nth_with_images nth_list_update)

lemma image_events_empty [simp]: "image_events url r refs i i xs = []"
  by (simp add: image_events_def)

lemma image_events_Suc:
  "i \<le> j \<Longrightarrow>
     image_events url r refs i (Suc j) xs =
       image_events url r refs i j xs @
         [Call_generateImage (xs ! j) r refs, SetSegments (with_images url i (Suc j) xs)]"
  by (simp add: image_events_def)

lemma generateImage_cong:
  "getApiKey st' = getApiKey st \<Longrightarrow>
     generateImage st' seg' r' refs' rep = generateImage st seg r refs rep"
  by (simp add: generateImage_def)

text \<open>
  While the calls succeed, running the loop from \<open>i\<close> is running it from \<open>j\<close> on the
  updated array, with every call and publication up to \<open>j\<close> in the trace.
\<close>

lemma image_loop_prefix:
  assumes "i \<le> j" and "j \<le> length xs"
    and "\<And>m. i \<le> m \<Longrightarrow> m < j \<Longrightarrow>
           generateImage st (xs ! m) (ratio st) (referenceImages st) (img m) = Inr (url m)"
  shows "image_loop img i xs st =
           image_loop img j (with_images url i j xs)
             (st\<lparr>segments := (if i < j then with_images url i j xs else segments st),
                 trace := trace st @ image_events url (ratio st) (referenceImages st) i j xs\<rparr>)"
  using assms
proof (induction j rule: dec_induct)
  case base
  show ?case by simp
next
  case (step j)
  let ?X = "with_images url i j xs"
  let ?S = "st\<lparr>segments := (if i < j then ?X else segments st),
                 trace := trace st @ image_events url (ratio st) (referenceImages st) i j xs\<rparr>"
  let ?S1 = "emit (Call_generateImage (?X ! j) (ratio ?S) (referenceImages ?S)) ?S"
  have jlt: "j < length xs" using step.prems by simp
  have IH: "image_loop img i xs st = image_loop img j ?X ?S"
    using step.IH step.prems by simp
  have key: "getApiKey ?S1 = getApiKey st"
    by (rule getApiKey_cong) (simp_all add: emit_def)
  have "generateImage ?S1 (?X ! j) (ratio ?S) (referenceImages ?S) (img j) =
          generateImage st (xs ! j) (ratio st) (referenceImages st) (img j)"
    by (rule generateImage_cong[OF key])
  then have call: "generateImage ?S1 (?X ! j) (ratio ?S) (referenceImages ?S) (img j) = Inr (url j)"
    using step.prems(2)[of j] step.hyps by simp
  have Xj: "?X ! j = xs ! j" using jlt by (simp add: nth_with_images)
  have upd: "?X[j := (?X ! j)\<lparr>imageUrl := Some (url j)\<rparr>] = with_images url i (Suc j) xs"
    using with_images_Suc[OF step.hyps(1) jlt] .
  have "image_loop img j ?X ?S =
          image_loop img (Suc j) (with_images url i (Suc j) xs)
            (setSegments (with_images url i (Suc j) xs) ?S1)"
    using jlt call upd by (subst image_loop.simps) (simp add: Let_def)
  also have "setSegments (with_images url i (Suc j) xs) ?S1 =
      st\<lparr>segments := (if i < Suc j then with_images url i (Suc j) xs else segments st),
         trace := trace st @ image_events url (ratio st) (referenceImages st) i (Suc j) xs\<rparr>"
    using step.hyps(1) Xj by (simp add: setSegments_def emit_def image_events_Suc)
  finally show ?case using IH by simp
qed

lemma image_loop_fail:
  assumes "i \<le> j" and "j < length xs"
    and ok: "\<And>m. i \<le> m \<Longrightarrow> m < j \<Longrightarrow>
           generateImage st (xs ! m) (ratio st) (referenceImages st) (img m) = Inr (url m)"
    and fail: "generateImage st (xs ! j) (ratio st) (referenceImages st) (img j) = Inl e"
  shows "image_loop img i xs st =
           (Inl e,
            st\<lparr>segments := (if i < j then with_images url i j xs else segments st),
               trace := trace st @ image_events url (ratio st) (referenceImages st) i j xs @
                          [Call_generateImage (xs ! j) (ratio st) (referenceImages st)]\<rparr>)"
proof -
  let ?X = "with_images url i j xs"
  let ?S = "st\<lparr>segments := (if i < j then ?X else segments st),
                 trace := trace st @ image_events url (ratio st) (referenceImages st) i j xs\<rparr>"
  let ?S1 = "emit (Call_generateImage (?X ! j) (ratio ?S) (referenceImages ?S)) ?S"
  have pre: "image_loop img i xs st = image_loop img j ?X ?S"
    using assms(1,2) ok by (intro image_loop_prefix) simp_all
  have key: "getApiKey ?S1 = getApiKey st"
    by (rule getApiKey_cong) (simp_all add: emit_def)
  have "generateImage ?S1 (?X ! j) (ratio ?S) (referenceImages ?S) (img j) =
          generateImage st (xs ! j) (ratio st) (referenceImages st) (img j)"
    by (rule generateImage_cong[OF key])
  then have call: "generateImage ?S1 (?X ! j) (ratio ?S) (referenceImages ?S) (img j) = Inl e"
    using fail by simp
  have Xj: "?X ! j = xs ! j" using assms(2) by (simp add: nth_with_images)
  have "image_loop img j ?X ?S = (Inl e, ?S1)"
    using assms(2) call by (subst image_loop.simps) (simp add: Let_def)
  moreover have "?S1 = st\<lparr>segments := (if i < j then ?X else segments st),
               trace := trace st @ image_events url (ratio st) (referenceImages st) i j xs @
                          [Call_generateImage (xs ! j) (ratio st) (referenceImages st)]\<rparr>"
    using Xj by (simp add: emit_def)
  ultimately show ?thesis using pre by simp
qed

lemma image_loop_done:
  assumes "i \<le> length xs"
    and ok: "\<And>m. i \<le> m \<Longrightarrow> m < length xs \<Longrightarrow>
           generateImage st (xs ! m) (ratio st) (referenceImages st) (img m) = Inr (url m)"
  shows "image_loop img i xs st =
           (Inr (with_images url i (length xs) xs),
            st\<lparr>segments := (if i < length xs then with_images url i (length xs) xs
                             else segments st),
               trace := trace st @
                          image_events url (ratio st) (referenceImages st) i (length xs) xs\<rparr>)"
proof -
  let ?X = "with_images url i (length xs) xs"
  let ?S = "st\<lparr>segments := (if i < length xs then ?X else segments st),
                 trace := trace st @
                            image_events url (ratio st) (referenceImages st) i (length xs) xs\<rparr>"
  have "image_loop img i xs st = image_loop img (length xs) ?X ?S"
    using assms(1) ok by (intro image_loop_prefix) simp_all
  also have "\<dots> = (Inr ?X, ?S)"
    by (subst image_loop.simps) simp
  finally show ?thesis .
qed

text \<open>Whatever the replies, the loop changes only the segment list and the trace.\<close>

lemma image_loop_frame:
  "\<exists>res segs tr. image_loop img i xs st = (res, st\<lparr>segments := segs, trace := tr\<rparr>)"
proof (induction img i xs st rule: image_loop.induct)
  case (1 img i newSegments st)
  show ?case
  proof (cases "i < length newSegments")
    case False
    have "st = st\<lparr>segments := segments st, trace := trace st\<rparr>" by simp
    then have "image_loop img i newSegments st =
        (Inr newSegments, st\<lparr>segments := segments st, trace := trace st\<rparr>)"
      using False by (subst image_loop.simps) simp
    then show ?thesis by blast
  next
    case True
    let ?st1 = "emit (Call_generateImage (newSegments ! i) (ratio st) (referenceImages st)) st"
    show ?thesis
    proof (cases "generateImage ?st1 (newSegments ! i) (ratio st) (referenceImages st) (img i)")
      case (Inl e)
      then have "image_loop img i newSegments st =
          (Inl e, st\<lparr>segments := segments st,
                      trace := trace st @
                        [Call_generateImage (newSegments ! i) (ratio st) (referenceImages st)]\<rparr>)"
        using True by (subst image_loop.simps) (simp add: Let_def emit_def)
      then show ?thesis by blast
    next
      case (Inr imgUrl)
      let ?upd = "newSegments[i := (newSegments ! i)\<lparr>imageUrl := Some imgUrl\<rparr>]"
      from "1.IH"[OF True refl Inr refl]
      obtain res segs tr where
        "image_loop img (Suc i) ?upd (setSegments ?upd ?st1) =
           (res, (setSegments ?upd ?st1)\<lparr>segments := segs, trace := tr\<rparr>)"
        by blast
      then have "image_loop img i newSegments st = (res, st\<lparr>segments := segs, trace := tr\<rparr>)"
        using True Inr by (subst image_loop.simps) (simp add: Let_def emit_def setSegments_def)
      then show ?thesis by blast
    qed
  qed
qed

section \<open>A run of the workflow\<close>

lemma generateInstagramPost_state:
  "getApiKey st' = getApiKey st \<Longrightarrow>
     generateInstagramPost st' t segs rep = generateInstagramPost st t segs rep"
  by (simp add: generateInstagramPost_def)

lemma generatePlan_is_parsed_plan:
  "generatePlan st t n r refs rep = Inr plan \<Longrightarrow>
     \<exists>items. rep = Responded (Json_text items) \<and> plan = map as_CarouselSegment items \<and>
       map imageUrl plan = map item_imageUrl items"
  by (auto simp add: generatePlan_def as_CarouselSegment_def
        split: if_splits reply.splits json_text.splits)

lemma client_failure_has_key:
  assumes "generatePlan st t n r refs rep_plan = Inl e \<or>
           generateImage st seg r refs rep_image = Inl e \<or>
           generateInstagramPost st t segs rep_post = Inl e"
    and "credential_rejected e"
  shows "truthy (getApiKey st)"
proof (rule ccontr)
  assume "\<not> truthy (getApiKey st)"
  then have "e = new_Error ''API Key is missing.''"
    using assms(1)
    by (auto simp add: generatePlan_def generateImage_def generateInstagramPost_def)
  then show False using assms(2) by (simp add: credential_rejected_def)
qed

lemma catch_result:
  "handleStartAutomation_catch e st =
     st\<lparr>workflowState := idle, hasApiKey := hasApiKey st \<and> \<not> credential_rejected e,
        trace := trace st @ failure_events e\<rparr>"
  by (simp add: handleStartAutomation_catch_def Let_def show_alert_def emit_def
        setWorkflowState_def failure_events_def failure_alert_def)

text \<open>The run in which the image call at position \<open>j\<close> is the first to fail.\<close>

lemma run_image_failure:
  assumes "hasApiKey st" and "topic st \<noteq> []"
    and plan: "generatePlan st (topic st) (count st) (ratio st) (referenceImages st)
                 (plan_reply prov) = Inr plan"
    and "j < length plan"
    and ok: "\<And>m. m < j \<Longrightarrow>
           generateImage st (plan ! m) (ratio st) (referenceImages st) (image_reply prov m)
             = Inr (url m)"
    and fail: "generateImage st (plan ! j) (ratio st) (referenceImages st) (image_reply prov j)
             = Inl e"
  shows "handleStartAutomation prov st =
           handleStartAutomation_catch e
             (st\<lparr>postData := None, copied := False, workflowState := generating_images,
                 segments := with_images url 0 j plan,
                 trace := trace st @ start_events st plan @
                            image_events url (ratio st) (referenceImages st) 0 j plan @
                            [Call_generateImage (plan ! j) (ratio st) (referenceImages st)]\<rparr>)"
proof -
  let ?st4 = "emit (Call_generatePlan (topic st) (count st) (ratio st) (referenceImages st))
                (setWorkflowState planning
                   ((setSegments [] st)\<lparr>postData := None, copied := False\<rparr>))"
  let ?st6 = "setWorkflowState generating_images (setSegments plan ?st4)"
  have key4: "getApiKey ?st4 = getApiKey st"
    by (rule getApiKey_cong) (simp_all add: emit_def setWorkflowState_def setSegments_def)
  have key6: "getApiKey ?st6 = getApiKey st"
    by (rule getApiKey_cong) (simp_all add: emit_def setWorkflowState_def setSegments_def)
  have p4: "generatePlan ?st4 (topic st) (count st) (ratio st) (referenceImages st)
              (plan_reply prov) = Inr plan"
    using plan by (simp add: generatePlan_state[OF key4])
  have r6: "ratio ?st6 = ratio st" "referenceImages ?st6 = referenceImages st"
    by (simp_all add: emit_def setWorkflowState_def setSegments_def)
  have loop: "image_loop (image_reply prov) 0 plan ?st6 =
      (Inl e,
       ?st6\<lparr>segments := (if 0 < j then with_images url 0 j plan else segments ?st6),
          trace := trace ?st6 @ image_events url (ratio ?st6) (referenceImages ?st6) 0 j plan @
                     [Call_generateImage (plan ! j) (ratio ?st6) (referenceImages ?st6)]\<rparr>)"
  proof (rule image_loop_fail)
    show "0 \<le> j" by simp
    show "j < length plan" by fact
    show "generateImage ?st6 (plan ! m) (ratio ?st6) (referenceImages ?st6)
            (image_reply prov m) = Inr (url m)"
      if "m < j" for m
      using ok[OF that] by (simp add: generateImage_state[OF key6] r6)
    show "generateImage ?st6 (plan ! j) (ratio ?st6) (referenceImages ?st6)
            (image_reply prov j) = Inl e"
      using fail by (simp add: generateImage_state[OF key6] r6)
  qed
  have seg6: "(if 0 < j then with_images url 0 j plan else segments ?st6)
                = with_images url 0 j plan"
    by (simp add: emit_def setWorkflowState_def setSegments_def)
  show ?thesis
    unfolding handleStartAutomation_def Let_def
    using assms(1,2) p4 loop seg6
    by (simp add: emit_def setWorkflowState_def setSegments_def start_events_def)
qed

text \<open>The run in which every image call succeeds.\<close>

lemma run_images_done_state:
  assumes "hasApiKey st" and "topic st \<noteq> []"
    and plan: "generatePlan st (topic st) (count st) (ratio st) (referenceImages st)
                 (plan_reply prov) = Inr plan"
    and ok: "\<And>m. m < length plan \<Longrightarrow>
           generateImage st (plan ! m) (ratio st) (referenceImages st) (image_reply prov m)
             = Inr (url m)"
  shows "\<exists>S. trace S =
             trace st @ start_events st plan @
             image_events url (ratio st) (referenceImages st) 0 (length plan) plan @
             [SetWorkflowState generating_caption,
              Call_generateInstagramPost (topic st) (with_images url 0 (length plan) plan)]
           \<and> hasApiKey S = hasApiKey st
           \<and> handleStartAutomation prov st =
               (case generateInstagramPost st (topic st)
                       (with_images url 0 (length plan) plan) (post_reply prov) of
                  Inl e \<Rightarrow> handleStartAutomation_catch e S
                | Inr post \<Rightarrow> setWorkflowState completed (S\<lparr>postData := Some post\<rparr>))"
proof -
  define st4 where "st4 = emit (Call_generatePlan (topic st) (count st) (ratio st) (referenceImages st))
                (setWorkflowState planning
                   ((setSegments [] st)\<lparr>postData := None, copied := False\<rparr>))"
  define st6 where "st6 = setWorkflowState generating_images (setSegments plan st4)"
  define X where "X = with_images url 0 (length plan) plan"
  define st7 where "st7 = st6\<lparr>segments := X,
          trace := trace st6 @
                     image_events url (ratio st) (referenceImages st) 0 (length plan) plan\<rparr>"
  define st9 where "st9 = emit (Call_generateInstagramPost (topic st) X)
                (setWorkflowState generating_caption st7)"
  have key4: "getApiKey st4 = getApiKey st"
    by (rule getApiKey_cong) (simp_all add: st4_def emit_def setWorkflowState_def setSegments_def)
  have key6: "getApiKey st6 = getApiKey st"
    by (rule getApiKey_cong)
      (simp_all add: st6_def st4_def emit_def setWorkflowState_def setSegments_def)
  have key9: "getApiKey st9 = getApiKey st"
    by (rule getApiKey_cong)
      (simp_all add: st9_def st7_def st6_def st4_def emit_def setWorkflowState_def
         setSegments_def)
  have p4: "generatePlan st4 (topic st) (count st) (ratio st) (referenceImages st)
              (plan_reply prov) = Inr plan"
    using plan by (simp add: generatePlan_state[OF key4])
  have r6: "ratio st6 = ratio st" "referenceImages st6 = referenceImages st"
    "segments st6 = plan"
    by (simp_all add: st6_def st4_def emit_def setWorkflowState_def setSegments_def)
  have "image_loop (image_reply prov) 0 plan st6 =
      (Inr (with_images url 0 (length plan) plan),
       st6\<lparr>segments := (if 0 < length plan then with_images url 0 (length plan) plan
                          else segments st6),
          trace := trace st6 @
                     image_events url (ratio st6) (referenceImages st6) 0 (length plan) plan\<rparr>)"
  proof (rule image_loop_done)
    show "0 \<le> length plan" by simp
    show "generateImage st6 (plan ! m) (ratio st6) (referenceImages st6)
            (image_reply prov m) = Inr (url m)"
      if "m < length plan" for m
      using ok[OF that] by (simp add: generateImage_state[OF key6] r6)
  qed
  moreover have "(if 0 < length plan then with_images url 0 (length plan) plan
                  else segments st6) = X"
    by (simp add: X_def r6)
  ultimately have loop: "image_loop (image_reply prov) 0 plan st6 = (Inr X, st7)"
    by (simp add: st7_def X_def r6)
  have "handleStartAutomation prov st =
      (case generateInstagramPost st9 (topic st) X (post_reply prov) of
         Inl e \<Rightarrow> handleStartAutomation_catch e st9
       | Inr post \<Rightarrow> setWorkflowState completed (st9\<lparr>postData := Some post\<rparr>))"
    using assms(1,2) p4 loop unfolding st9_def
    by (simp add: handleStartAutomation_def Let_def st4_def[symmetric] st6_def[symmetric])
  then have run: "handleStartAutomation prov st =
      (case generateInstagramPost st (topic st) X (post_reply prov) of
         Inl e \<Rightarrow> handleStartAutomation_catch e st9
       | Inr post \<Rightarrow> setWorkflowState completed (st9\<lparr>postData := Some post\<rparr>))"
    by (simp add: generateInstagramPost_state[OF key9])
  have tr9: "trace st9 = trace st @ start_events st plan @
           image_events url (ratio st) (referenceImages st) 0 (length plan) plan @
           [SetWorkflowState generating_caption, Call_generateInstagramPost (topic st) X]"
    by (simp add: st9_def st7_def st6_def st4_def emit_def setWorkflowState_def
          setSegments_def start_events_def)
  have h9: "hasApiKey st9 = hasApiKey st"
    by (simp add: st9_def st7_def st6_def st4_def emit_def setWorkflowState_def
          setSegments_def)
  show ?thesis
    using tr9 h9 run unfolding X_def by blast
qed

lemma run_images_done:
  assumes "hasApiKey st" and "topic st \<noteq> []"
    and plan: "generatePlan st (topic st) (count st) (ratio st) (referenceImages st)
                 (plan_reply prov) = Inr plan"
    and ok: "\<And>m. m < length plan \<Longrightarrow>
           generateImage st (plan ! m) (ratio st) (referenceImages st) (image_reply prov m)
             = Inr (url m)"
  shows "trace (handleStartAutomation prov st) =
           trace st @ start_events st plan @
           image_events url (ratio st) (referenceImages st) 0 (length plan) plan @
           [SetWorkflowState generating_caption,
            Call_generateInstagramPost (topic st) (with_images url 0 (length plan) plan)] @
           caption_events (generateInstagramPost st (topic st)
                             (with_images url 0 (length plan) plan) (post_reply prov))"
proof -
  from run_images_done_state[OF assms] obtain S where
    S: "trace S =
             trace st @ start_events st plan @
             image_events url (ratio st) (referenceImages st) 0 (length plan) plan @
             [SetWorkflowState generating_caption,
              Call_generateInstagramPost (topic st) (with_images url 0 (length plan) plan)]"
    and run: "handleStartAutomation prov st =
               (case generateInstagramPost st (topic st)
                       (with_images url 0 (length plan) plan) (post_reply prov) of
                  Inl e \<Rightarrow> handleStartAutomation_catch e S
                | Inr post \<Rightarrow> setWorkflowState completed (S\<lparr>postData := Some post\<rparr>))"
    by blast
  show ?thesis
    unfolding run
    by (cases "generateInstagramPost st (topic st) (with_images url 0 (length plan) plan)
                 (post_reply prov)")
       (simp_all add: S catch_result caption_events_def setWorkflowState_def emit_def)
qed

text \<open>
  Every sequence of call results has a first failure or none: the hypotheses of the two
  theorems on the image phase cover every run whose plan call succeeds.
\<close>

lemma first_failure_exists:
  fixes gen :: "nat \<Rightarrow> thrown + string"
  shows "\<exists>j url. j \<le> n \<and> (\<forall>m<j. gen m = Inr (url m)) \<and> (j < n \<longrightarrow> (\<exists>e. gen j = Inl e))"
proof -
  define url where "url = (\<lambda>m. case gen m of Inr u \<Rightarrow> u | Inl e \<Rightarrow> [])"
  have ok: "gen m = Inr (url m)" if "\<not> isl (gen m)" for m
    using that unfolding url_def by (cases "gen m") simp_all
  show ?thesis
  proof (cases "\<exists>m. m < n \<and> isl (gen m)")
    case True
    define j where "j = (LEAST m. m < n \<and> isl (gen m))"
    from True have j: "j < n \<and> isl (gen j)"
      unfolding j_def by (rule LeastI_ex)
    have before: "gen m = Inr (url m)" if "m < j" for m
    proof (rule ok, rule notI)
      assume "isl (gen m)"
      with that j have "m < n \<and> isl (gen m)" by simp
      then have "j \<le> m" unfolding j_def by (rule Least_le)
      with that show False by simp
    qed
    from j obtain e where e: "gen j = Inl e" by (cases "gen j") simp_all
    have "j \<le> n \<and> (\<forall>m<j. gen m = Inr (url m)) \<and> (j < n \<longrightarrow> (\<exists>e. gen j = Inl e))"
      using j before e by simp
    then show ?thesis by blast
  next
    case False
    then have "n \<le> n \<and> (\<forall>m<n. gen m = Inr (url m)) \<and> (n < n \<longrightarrow> (\<exists>e. gen n = Inl e))"
      using ok by simp
    then show ?thesis by blast
  qed
qed

text \<open>
  Claim C2, as stated, fails, in two ways. The provider's plan has five items, the first
  and third of which already carry an image address; the first image call succeeds and
  the second throws an error whose message says that the requested entity was not
  found. The run ends idle with the first image kept, but the alert it shows is the
  invalid-key notice, not the generic failure alert, and the key flag is cleared; and the
  third segment, whose image call was never made, has an image address.
\<close>

theorem image_failure_alert_counterexample:
  "workflowState (handleStartAutomation
       (prefilled_provider (new_Error ''Requested entity was not found'')) example_state) = idle
   \<and> last (trace (handleStartAutomation
       (prefilled_provider (new_Error ''Requested entity was not found'')) example_state))
       = Alert Alert_invalid_key
   \<and> Alert (Alert_automation_failed (Some ''Requested entity was not found''))
       \<notin> set (trace (handleStartAutomation
             (prefilled_provider (new_Error ''Requested entity was not found''))
             example_state))
   \<and> \<not> hasApiKey (handleStartAutomation
       (prefilled_provider (new_Error ''Requested entity was not found'')) example_state)
   \<and> imageUrl (segments (handleStartAutomation
       (prefilled_provider (new_Error ''Requested entity was not found'')) example_state) ! 2)
       = Some ''https://example.com/3.png''"
proof -
  let ?e = "new_Error ''Requested entity was not found''"
  let ?plan = "map as_CarouselSegment prefilled_items"
  have s: "hasApiKey example_state" "topic example_state \<noteq> []"
    by (simp_all add: example_state_def)
  have p: "generatePlan example_state (topic example_state) (count example_state)
      (ratio example_state) (referenceImages example_state) (plan_reply (prefilled_provider ?e))
      = Inr ?plan"
    by (simp add: generatePlan_def truthy_def prefilled_provider_def)
  have len: "Suc 0 < length ?plan" by (simp add: prefilled_items_def)
  have ok: "generateImage example_state (?plan ! m) (ratio example_state)
      (referenceImages example_state) (image_reply (prefilled_provider ?e) m)
      = Inr ((\<lambda>_. ''data:image/png;base64,AAAA'') m)" if "m < Suc 0" for m
    using that
    by (simp add: generateImage_def truthy_def prefilled_provider_def response_parts_def
          example_response_def template_def)
  have fail: "generateImage example_state (?plan ! Suc 0) (ratio example_state)
      (referenceImages example_state) (image_reply (prefilled_provider ?e) (Suc 0)) = Inl ?e"
    by (simp add: generateImage_def truthy_def prefilled_provider_def)
  have rej: "credential_rejected ?e"
    by (simp add: credential_rejected_def)
  have ev: "image_events url r refs 0 (Suc 0) xs =
      [Call_generateImage (xs ! 0) r refs, SetSegments (with_images url 0 (Suc 0) xs)]"
    for url r refs xs
    by (simp add: image_events_def)
  have third: "with_images (\<lambda>_. ''data:image/png;base64,AAAA'') 0 (Suc 0) ?plan ! 2 = ?plan ! 2"
    by (simp add: nth_with_images prefilled_items_def)
  have third': "imageUrl (?plan ! 2) = Some ''https://example.com/3.png''"
    by (simp add: prefilled_items_def as_CarouselSegment_def)
  show ?thesis
    unfolding run_image_failure[OF s p len ok fail, simplified] catch_result
    using rej third third'
    by (simp add: failure_events_def failure_alert_def start_events_def ev example_state_def)
qed

text \<open>
  Claim C2, amended. Take a run that starts (a key is flagged present and the topic is not
  empty) and whose plan call succeeds with \<open>plan\<close>. Let the image calls at the positions
  before \<open>j\<close> succeed with the images \<open>url m\<close> and let the call at position \<open>j\<close> throw
  \<open>e\<close> (position \<open>j\<close> counts from 0: it is the claim's segment \<open>k = j + 1\<close>). Then the
  workflow state is idle again; the published segment list is the whole plan, in order,
  in which every segment before \<open>j\<close> carries the image its call returned and every
  segment from \<open>j\<close> on is exactly as the plan gave it, so that it has an image address
  only if the provider's plan carried one; and the last thing the run shows is one
  alert: the generic failure alert with \<open>e\<close>'s message, unless that message contains
  "Requested entity was not found", in which case it is the invalid-key notice and the
  key flag is cleared.
\<close>

theorem image_failure_resets_to_idle_keeping_images:
  assumes "hasApiKey st" and "topic st \<noteq> []"
    and "generatePlan st (topic st) (count st) (ratio st) (referenceImages st)
           (plan_reply prov) = Inr plan"
    and "j < length plan"
    and "\<forall>m<j. generateImage st (plan ! m) (ratio st) (referenceImages st)
           (image_reply prov m) = Inr (url m)"
    and "generateImage st (plan ! j) (ratio st) (referenceImages st) (image_reply prov j)
           = Inl e"
  shows "workflowState (handleStartAutomation prov st) = idle
    \<and> length (segments (handleStartAutomation prov st)) = length plan
    \<and> (\<forall>m<j. segments (handleStartAutomation prov st) ! m
                 = (plan ! m)\<lparr>imageUrl := Some (url m)\<rparr>)
    \<and> (\<forall>m. j \<le> m \<and> m < length plan \<longrightarrow>
          segments (handleStartAutomation prov st) ! m = plan ! m \<and>
          imageUrl (segments (handleStartAutomation prov st) ! m) = imageUrl (plan ! m))
    \<and> last (trace (handleStartAutomation prov st)) =
          Alert (if credential_rejected e then Alert_invalid_key
                 else Alert_automation_failed (message e))
    \<and> hasApiKey (handleStartAutomation prov st) = (\<not> credential_rejected e)"
proof -
  have run: "handleStartAutomation prov st =
           handleStartAutomation_catch e
             (st\<lparr>postData := None, copied := False, workflowState := generating_images,
                 segments := with_images url 0 j plan,
                 trace := trace st @ start_events st plan @
                            image_events url (ratio st) (referenceImages st) 0 j plan @
                            [Call_generateImage (plan ! j) (ratio st) (referenceImages st)]\<rparr>)"
    using assms by (intro run_image_failure) simp_all
  have segs: "segments (handleStartAutomation prov st) = with_images url 0 j plan"
    unfolding run catch_result by simp
  show ?thesis
  proof (intro conjI allI impI)
    show "workflowState (handleStartAutomation prov st) = idle"
      unfolding run catch_result by simp
    show "length (segments (handleStartAutomation prov st)) = length plan"
      unfolding segs by simp
    show "segments (handleStartAutomation prov st) ! m = (plan ! m)\<lparr>imageUrl := Some (url m)\<rparr>"
      if "m < j" for m
      unfolding segs using that assms(4) by (simp add: nth_with_images)
    show "segments (handleStartAutomation prov st) ! m = plan ! m"
      if "j \<le> m \<and> m < length plan" for m
      unfolding segs using that by (simp add: nth_with_images)
    show "imageUrl (segments (handleStartAutomation prov st) ! m) = imageUrl (plan ! m)"
      if "j \<le> m \<and> m < length plan" for m
      unfolding segs using that by (simp add: nth_with_images)
    show "last (trace (handleStartAutomation prov st)) =
          Alert (if credential_rejected e then Alert_invalid_key
                 else Alert_automation_failed (message e))"
      unfolding run catch_result by (simp add: failure_events_def failure_alert_def)
    show "hasApiKey (handleStartAutomation prov st) = (\<not> credential_rejected e)"
      unfolding run catch_result using assms(1) by simp
  qed
qed

theorem image_failure_resets_to_idle_keeping_images_witness:
  "workflowState (handleStartAutomation (example_provider (new_Error ''quota exceeded''))
       example_state) = idle
   \<and> length (segments (handleStartAutomation (example_provider (new_Error ''quota exceeded''))
       example_state)) = 5
   \<and> imageUrl (segments (handleStartAutomation (example_provider (new_Error ''quota exceeded''))
       example_state) ! 0) = Some ''data:image/png;base64,AAAA''
   \<and> imageUrl (segments (handleStartAutomation (example_provider (new_Error ''quota exceeded''))
       example_state) ! 1) = None
   \<and> imageUrl (segments (handleStartAutomation (example_provider (new_Error ''quota exceeded''))
       example_state) ! 4) = None
   \<and> last (trace (handleStartAutomation (example_provider (new_Error ''quota exceeded''))
       example_state)) = Alert (Alert_automation_failed (Some ''quota exceeded''))
   \<and> hasApiKey (handleStartAutomation (example_provider (new_Error ''quota exceeded''))
       example_state)"
proof -
  let ?e = "new_Error ''quota exceeded''"
  let ?plan = "map as_CarouselSegment (map example_item [1, 2, 3, 4, 5])"
  have s: "hasApiKey example_state" "topic example_state \<noteq> []"
    by (simp_all add: example_state_def)
  have p: "generatePlan example_state (topic example_state) (count example_state)
      (ratio example_state) (referenceImages example_state) (plan_reply (example_provider ?e))
      = Inr ?plan"
    by (simp add: generatePlan_def truthy_def example_provider_def)
  have j: "1 < length ?plan" by simp
  have ok: "\<forall>m<1. generateImage example_state (?plan ! m) (ratio example_state)
      (referenceImages example_state) (image_reply (example_provider ?e) m)
      = Inr ((\<lambda>_. ''data:image/png;base64,AAAA'') m)"
    by (simp add: generateImage_def truthy_def example_provider_def response_parts_def
          example_response_def template_def)
  have fail: "generateImage example_state (?plan ! 1) (ratio example_state)
      (referenceImages example_state) (image_reply (example_provider ?e) 1) = Inl ?e"
    by (simp add: generateImage_def truthy_def example_provider_def)
  have norej: "\<not> credential_rejected ?e"
    by (simp add: credential_rejected_def)
  show ?thesis
    using image_failure_resets_to_idle_keeping_images[OF s p j ok fail] norej
    by (simp add: as_CarouselSegment_def example_item_def)
qed

text \<open>
  Claim C7, as stated, fails. The provider's plan has five items, the first of which
  already carries an image address (\<open>prefilled_items\<close>): the list published before the
  image state holds that address, and the first image call then replaces it. The order
  of calls and publications is as claimed.
\<close>

theorem plan_with_image_counterexample:
  "trace (handleStartAutomation (prefilled_provider (new_Error ''quota exceeded''))
       example_state)
     = [SetSegments [], SetWorkflowState planning,
        Call_generatePlan ''time'' 5 Ratio_1_1 [],
        SetSegments (map as_CarouselSegment prefilled_items),
        SetWorkflowState generating_images,
        Call_generateImage (map as_CarouselSegment prefilled_items ! 0) Ratio_1_1 [],
        SetSegments (with_images (\<lambda>m. ''data:image/png;base64,AAAA'') 0 (Suc 0)
                       (map as_CarouselSegment prefilled_items)),
        Call_generateImage (map as_CarouselSegment prefilled_items ! 1) Ratio_1_1 [],
        Console_error (new_Error ''quota exceeded''),
        SetWorkflowState idle,
        Alert (Alert_automation_failed (Some ''quota exceeded''))]
   \<and> imageUrl (map as_CarouselSegment prefilled_items ! 0) = Some ''https://example.com/1.png''
   \<and> imageUrl (with_images (\<lambda>m. ''data:image/png;base64,AAAA'') 0 (Suc 0)
                  (map as_CarouselSegment prefilled_items) ! 0)
       = Some ''data:image/png;base64,AAAA''"
proof -
  let ?e = "new_Error ''quota exceeded''"
  let ?plan = "map as_CarouselSegment prefilled_items"
  have s: "hasApiKey example_state" "topic example_state \<noteq> []"
    by (simp_all add: example_state_def)
  have p: "generatePlan example_state (topic example_state) (count example_state)
      (ratio example_state) (referenceImages example_state) (plan_reply (prefilled_provider ?e))
      = Inr ?plan"
    by (simp add: generatePlan_def truthy_def prefilled_provider_def)
  have len: "Suc 0 < length ?plan" by (simp add: prefilled_items_def)
  have ok: "generateImage example_state (?plan ! m) (ratio example_state)
      (referenceImages example_state) (image_reply (prefilled_provider ?e) m)
      = Inr ((\<lambda>_. ''data:image/png;base64,AAAA'') m)" if "m < Suc 0" for m
    using that
    by (simp add: generateImage_def truthy_def prefilled_provider_def response_parts_def
          example_response_def template_def)
  have fail: "generateImage example_state (?plan ! Suc 0) (ratio example_state)
      (referenceImages example_state) (image_reply (prefilled_provider ?e) (Suc 0)) = Inl ?e"
    by (simp add: generateImage_def truthy_def prefilled_provider_def)
  have norej: "\<not> credential_rejected ?e"
    by (simp add: credential_rejected_def)
  have ev: "image_events url r refs 0 (Suc 0) xs =
      [Call_generateImage (xs ! 0) r refs, SetSegments (with_images url 0 (Suc 0) xs)]"
    for url r refs xs
    by (simp add: image_events_def)
  have first: "imageUrl (?plan ! 0) = Some ''https://example.com/1.png''"
    by (simp add: prefilled_items_def as_CarouselSegment_def)
  have first': "imageUrl (with_images (\<lambda>m. ''data:image/png;base64,AAAA'') 0 (Suc 0) ?plan ! 0)
       = Some ''data:image/png;base64,AAAA''"
    by (simp add: nth_with_images prefilled_items_def)
  have "trace (handleStartAutomation (prefilled_provider ?e) example_state)
     = [SetSegments [], SetWorkflowState planning,
        Call_generatePlan ''time'' 5 Ratio_1_1 [],
        SetSegments ?plan, SetWorkflowState generating_images,
        Call_generateImage (?plan ! 0) Ratio_1_1 [],
        SetSegments (with_images (\<lambda>m. ''data:image/png;base64,AAAA'') 0 (Suc 0) ?plan),
        Call_generateImage (?plan ! 1) Ratio_1_1 [],
        Console_error ?e, SetWorkflowState idle,
        Alert (Alert_automation_failed (Some ''quota exceeded''))]"
    unfolding run_image_failure[OF s p len ok fail, simplified] catch_result
    using norej
    by (simp add: failure_events_def failure_alert_def start_events_def ev example_state_def)
  then show ?thesis using first first' by simp
qed

text \<open>
  Claim C7, amended. Take a run that starts and whose plan call succeeds with \<open>plan\<close>, and
  let \<open>j\<close> be the number of image calls that succeed before the first one that throws
  (\<open>j\<close> is the length of the plan when none throws), with \<open>url m\<close> the image of call
  \<open>m\<close>. Then what the run shows is, in this order: the emptied list, the planning state,
  the plan call, the plan as first published, and the image state; then for each
  position \<open>m < j\<close> in turn the image call for segment \<open>m\<close>, directly followed by the
  publication of the full list in which the segments up to \<open>m\<close> carry the images their
  calls returned; and only after the publication for \<open>m\<close> the call for \<open>m + 1\<close>, or the
  caption step when \<open>m\<close> was the last. The plan first published is what the provider's
  response parsed to, image addresses included: before the image state a segment has an
  image address exactly when the provider's plan carried one. Until its own call
  returns, segment \<open>m\<close> is as the plan gave it; publication \<open>m\<close> differs from the one
  before it in segment \<open>m\<close> alone, whose image address is set, once, to what its own call
  returned.
\<close>

theorem images_generated_one_after_another:
  assumes "hasApiKey st" and "topic st \<noteq> []"
    and "generatePlan st (topic st) (count st) (ratio st) (referenceImages st)
           (plan_reply prov) = Inr plan"
    and "j \<le> length plan"
    and "\<forall>m<j. generateImage st (plan ! m) (ratio st) (referenceImages st)
           (image_reply prov m) = Inr (url m)"
    and "j < length plan \<longrightarrow>
           generateImage st (plan ! j) (ratio st) (referenceImages st) (image_reply prov j)
             = Inl e"
  shows "trace (handleStartAutomation prov st) =
           trace st @
           [SetSegments [], SetWorkflowState planning,
            Call_generatePlan (topic st) (count st) (ratio st) (referenceImages st),
            SetSegments plan, SetWorkflowState generating_images] @
           concat (map (\<lambda>m. [Call_generateImage (plan ! m) (ratio st) (referenceImages st),
                             SetSegments (with_images url 0 (Suc m) plan)])
                     [0..<j]) @
           (if j < length plan
            then Call_generateImage (plan ! j) (ratio st) (referenceImages st) # failure_events e
            else [SetWorkflowState generating_caption,
                  Call_generateInstagramPost (topic st) (with_images url 0 j plan)] @
                 caption_events (generateInstagramPost st (topic st) (with_images url 0 j plan)
                                   (post_reply prov)))
    \<and> (\<exists>items. plan_reply prov = Responded (Json_text items) \<and>
                plan = map as_CarouselSegment items \<and>
                map imageUrl plan = map item_imageUrl items)
    \<and> (\<forall>m<j. with_images url 0 m plan ! m = plan ! m \<and>
               with_images url 0 (Suc m) plan =
                 (with_images url 0 m plan)[m := (plan ! m)\<lparr>imageUrl := Some (url m)\<rparr>] \<and>
               imageUrl (with_images url 0 (Suc m) plan ! m) = Some (url m))"
proof (intro conjI allI impI)
  show "trace (handleStartAutomation prov st) =
           trace st @
           [SetSegments [], SetWorkflowState planning,
            Call_generatePlan (topic st) (count st) (ratio st) (referenceImages st),
            SetSegments plan, SetWorkflowState generating_images] @
           concat (map (\<lambda>m. [Call_generateImage (plan ! m) (ratio st) (referenceImages st),
                             SetSegments (with_images url 0 (Suc m) plan)])
                     [0..<j]) @
           (if j < length plan
            then Call_generateImage (plan ! j) (ratio st) (referenceImages st) # failure_events e
            else [SetWorkflowState generating_caption,
                  Call_generateInstagramPost (topic st) (with_images url 0 j plan)] @
                 caption_events (generateInstagramPost st (topic st) (with_images url 0 j plan)
                                   (post_reply prov)))"
  proof (cases "j < length plan")
    case True
    have "handleStartAutomation prov st =
           handleStartAutomation_catch e
             (st\<lparr>postData := None, copied := False, workflowState := generating_images,
                 segments := with_images url 0 j plan,
                 trace := trace st @ start_events st plan @
                            image_events url (ratio st) (referenceImages st) 0 j plan @
                            [Call_generateImage (plan ! j) (ratio st) (referenceImages st)]\<rparr>)"
      using assms True by (intro run_image_failure) simp_all
    then show ?thesis
      using True by (simp add: catch_result start_events_def image_events_def)
  next
    case False
    then have j: "j = length plan" using assms(4) by simp
    have "trace (handleStartAutomation prov st) =
           trace st @ start_events st plan @
           image_events url (ratio st) (referenceImages st) 0 (length plan) plan @
           [SetWorkflowState generating_caption,
            Call_generateInstagramPost (topic st) (with_images url 0 (length plan) plan)] @
           caption_events (generateInstagramPost st (topic st)
                             (with_images url 0 (length plan) plan) (post_reply prov))"
      using assms j by (intro run_images_done) simp_all
    then show ?thesis
      using j by (simp add: start_events_def image_events_def)
  qed
next
  show "\<exists>items. plan_reply prov = Responded (Json_text items) \<and>
                plan = map as_CarouselSegment items \<and>
                map imageUrl plan = map item_imageUrl items"
    using generatePlan_is_parsed_plan[OF assms(3)] .
next
  fix m assume m: "m < j"
  then have ml: "m < length plan" using assms(4) by simp
  show "with_images url 0 m plan ! m = plan ! m"
    using ml by (simp add: nth_with_images)
  have "(with_images url 0 m plan)[m := (with_images url 0 m plan ! m)\<lparr>imageUrl := Some (url m)\<rparr>]
          = with_images url 0 (Suc m) plan"
    using ml by (intro with_images_Suc) simp_all
  then show "with_images url 0 (Suc m) plan =
                 (with_images url 0 m plan)[m := (plan ! m)\<lparr>imageUrl := Some (url m)\<rparr>]"
    using ml by (simp add: nth_with_images)
  show "imageUrl (with_images url 0 (Suc m) plan ! m) = Some (url m)"
    using ml by (simp add: nth_with_images)
qed

theorem images_generated_one_after_another_witness:
  "trace (handleStartAutomation (example_provider (new_Error ''quota exceeded'')) example_state)
     = [SetSegments [], SetWorkflowState planning,
        Call_generatePlan ''time'' 5 Ratio_1_1 [],
        SetSegments (map as_CarouselSegment (map example_item [1, 2, 3, 4, 5])),
        SetWorkflowState generating_images,
        Call_generateImage (as_CarouselSegment (example_item 1)) Ratio_1_1 [],
        SetSegments (with_images (\<lambda>m. ''data:image/png;base64,AAAA'') 0 (Suc 0)
                       (map as_CarouselSegment (map example_item [1, 2, 3, 4, 5]))),
        Call_generateImage (as_CarouselSegment (example_item 2)) Ratio_1_1 [],
        Console_error (new_Error ''quota exceeded''),
        SetWorkflowState idle,
        Alert (Alert_automation_failed (Some ''quota exceeded''))]
   \<and> with_images (\<lambda>m. ''data:image/png;base64,AAAA'') 0 (Suc 0)
        (map as_CarouselSegment (map example_item [1, 2, 3, 4, 5]))
     = (map as_CarouselSegment (map example_item [1, 2, 3, 4, 5]))
         [0 := (as_CarouselSegment (example_item 1))
                 \<lparr>imageUrl := Some ''data:image/png;base64,AAAA''\<rparr>]"
proof -
  let ?e = "new_Error ''quota exceeded''"
  let ?plan = "map as_CarouselSegment (map example_item [1, 2, 3, 4, 5])"
  have s: "hasApiKey example_state" "topic example_state \<noteq> []"
    by (simp_all add: example_state_def)
  have p: "generatePlan example_state (topic example_state) (count example_state)
      (ratio example_state) (referenceImages example_state) (plan_reply (example_provider ?e))
      = Inr ?plan"
    by (simp add: generatePlan_def truthy_def example_provider_def)
  have j: "1 \<le> length ?plan" by simp
  have ok: "\<forall>m<1. generateImage example_state (?plan ! m) (ratio example_state)
      (referenceImages example_state) (image_reply (example_provider ?e) m)
      = Inr ((\<lambda>_. ''data:image/png;base64,AAAA'') m)"
    by (simp add: generateImage_def truthy_def example_provider_def response_parts_def
          example_response_def template_def)
  have fail: "1 < length ?plan \<longrightarrow> generateImage example_state (?plan ! 1) (ratio example_state)
      (referenceImages example_state) (image_reply (example_provider ?e) 1) = Inl ?e"
    by (simp add: generateImage_def truthy_def example_provider_def)
  have norej: "\<not> credential_rejected ?e"
    by (simp add: credential_rejected_def)
  show ?thesis
    using images_generated_one_after_another[OF s p j ok fail] norej
    by (simp add: failure_events_def failure_alert_def example_state_def)
qed

section \<open>What a run and a test leave of the stored credential\<close>

lemma catch_frame:
  "localStorage (handleStartAutomation_catch e st) = localStorage st"
  "env_API_KEY (handleStartAutomation_catch e st) = env_API_KEY st"
  "env_GEMINI_API_KEY (handleStartAutomation_catch e st) = env_GEMINI_API_KEY st"
  "referenceImages (handleStartAutomation_catch e st) = referenceImages st"
  by (simp_all add: catch_result)

lemma handleStartAutomation_frame:
  "localStorage (handleStartAutomation prov st) = localStorage st \<and>
   env_API_KEY (handleStartAutomation prov st) = env_API_KEY st \<and>
   env_GEMINI_API_KEY (handleStartAutomation prov st) = env_GEMINI_API_KEY st \<and>
   referenceImages (handleStartAutomation prov st) = referenceImages st"
proof (cases "hasApiKey st \<and> topic st \<noteq> []")
  case False
  then show ?thesis
    by (auto simp add: handleStartAutomation_def setIsKeyManagerOpen_def useEffect_isOpen_def
          split: option.splits)
next
  case True
  define st4 where "st4 = emit (Call_generatePlan (topic st) (count st) (ratio st) (referenceImages st))
                (setWorkflowState planning
                   ((setSegments [] st)\<lparr>postData := None, copied := False\<rparr>))"
  have f4: "localStorage st4 = localStorage st" "env_API_KEY st4 = env_API_KEY st"
    "env_GEMINI_API_KEY st4 = env_GEMINI_API_KEY st" "referenceImages st4 = referenceImages st"
    by (simp_all add: st4_def emit_def setWorkflowState_def setSegments_def)
  show ?thesis
  proof (cases "generatePlan st4 (topic st) (count st) (ratio st) (referenceImages st)
                  (plan_reply prov)")
    case (Inl e)
    then have "handleStartAutomation prov st = handleStartAutomation_catch e st4"
      using True by (simp add: handleStartAutomation_def Let_def st4_def)
    then show ?thesis by (simp add: catch_frame f4)
  next
    case (Inr plan)
    define st6 where "st6 = setWorkflowState generating_images (setSegments plan st4)"
    have f6: "localStorage st6 = localStorage st" "env_API_KEY st6 = env_API_KEY st"
      "env_GEMINI_API_KEY st6 = env_GEMINI_API_KEY st" "referenceImages st6 = referenceImages st"
      by (simp_all add: st6_def f4 setWorkflowState_def setSegments_def emit_def)
    obtain res segs tr where loop:
      "image_loop (image_reply prov) 0 plan st6 = (res, st6\<lparr>segments := segs, trace := tr\<rparr>)"
      using image_loop_frame by blast
    define st7 where "st7 = st6\<lparr>segments := segs, trace := tr\<rparr>"
    have f7: "localStorage st7 = localStorage st" "env_API_KEY st7 = env_API_KEY st"
      "env_GEMINI_API_KEY st7 = env_GEMINI_API_KEY st" "referenceImages st7 = referenceImages st"
      by (simp_all add: st7_def f6)
    have run: "handleStartAutomation prov st =
        (case res of
           Inl e \<Rightarrow> handleStartAutomation_catch e st7
         | Inr newSegments \<Rightarrow>
             (let st8 = setWorkflowState generating_caption st7;
                  st9 = emit (Call_generateInstagramPost (topic st) newSegments) st8
              in case generateInstagramPost st9 (topic st) newSegments (post_reply prov) of
                   Inl e \<Rightarrow> handleStartAutomation_catch e st9
                 | Inr post \<Rightarrow> setWorkflowState completed (st9\<lparr>postData := Some post\<rparr>)))"
      using True Inr loop
      by (simp add: handleStartAutomation_def Let_def st4_def[symmetric] st6_def[symmetric]
            st7_def[symmetric])
    show ?thesis
      unfolding run
      by (simp add: Let_def catch_frame f7 emit_def setWorkflowState_def split: sum.splits)
  qed
qed


lemma run_plan_failure:
  assumes "hasApiKey st" and "topic st \<noteq> []"
    and "generatePlan st (topic st) (count st) (ratio st) (referenceImages st)
           (plan_reply prov) = Inl e"
  shows "handleStartAutomation prov st =
           handleStartAutomation_catch e
             (st\<lparr>segments := [], postData := None, copied := False, workflowState := planning,
                 trace := trace st @
                   [SetSegments [], SetWorkflowState planning,
                    Call_generatePlan (topic st) (count st) (ratio st) (referenceImages st)]\<rparr>)"
proof -
  let ?st4 = "emit (Call_generatePlan (topic st) (count st) (ratio st) (referenceImages st))
                (setWorkflowState planning
                   ((setSegments [] st)\<lparr>postData := None, copied := False\<rparr>))"
  have key4: "getApiKey ?st4 = getApiKey st"
    by (rule getApiKey_cong) (simp_all add: emit_def setWorkflowState_def setSegments_def)
  have p4: "generatePlan ?st4 (topic st) (count st) (ratio st) (referenceImages st)
              (plan_reply prov) = Inl e"
    using assms(3) by (simp add: generatePlan_state[OF key4])
  show ?thesis
    unfolding handleStartAutomation_def Let_def
    using assms(1,2) p4
    by (simp add: emit_def setWorkflowState_def setSegments_def)
qed

lemma no_console_error_before_catch:
  "Console_error x \<notin> set (start_events st plan)"
  "Console_error x \<notin> set (image_events url r refs i j xs)"
  by (auto simp add: start_events_def image_events_def)

text \<open>
  A run that starts either ends in the \<^verbatim>\<open>catch\<close> block, with the value that one of its
  client calls threw and with nothing logged as an error before, or logs no error at all.
\<close>

lemma run_ends:
  assumes "hasApiKey st" and "topic st \<noteq> []"
  shows "(\<exists>e S pre. handleStartAutomation prov st = handleStartAutomation_catch e S \<and>
            trace S = trace st @ pre \<and> (\<forall>x. Console_error x \<notin> set pre) \<and> hasApiKey S \<and>
            (credential_rejected e \<longrightarrow> truthy (getApiKey st)))
       \<or> (\<exists>new. trace (handleStartAutomation prov st) = trace st @ new \<and>
            (\<forall>x. Console_error x \<notin> set new))"
proof (cases "generatePlan st (topic st) (count st) (ratio st) (referenceImages st)
                (plan_reply prov)")
  case (Inl e)
  let ?S = "st\<lparr>segments := [], postData := None, copied := False, workflowState := planning,
                 trace := trace st @
                   [SetSegments [], SetWorkflowState planning,
                    Call_generatePlan (topic st) (count st) (ratio st) (referenceImages st)]\<rparr>"
  have "handleStartAutomation prov st = handleStartAutomation_catch e ?S"
    using assms Inl by (rule run_plan_failure)
  moreover have "trace ?S = trace st @
                   [SetSegments [], SetWorkflowState planning,
                    Call_generatePlan (topic st) (count st) (ratio st) (referenceImages st)]"
    by simp
  moreover have "\<forall>x. Console_error x \<notin> set
                   [SetSegments [], SetWorkflowState planning,
                    Call_generatePlan (topic st) (count st) (ratio st) (referenceImages st)]"
    by simp
  moreover have "hasApiKey ?S" using assms(1) by simp
  moreover have "credential_rejected e \<longrightarrow> truthy (getApiKey st)"
    using Inl client_failure_has_key[of st "topic st" "count st" "ratio st" "referenceImages st"
        "plan_reply prov" e]
    by blast
  ultimately show ?thesis by blast
next
  case (Inr plan)
  let ?gen = "\<lambda>m. generateImage st (plan ! m) (ratio st) (referenceImages st) (image_reply prov m)"
  from first_failure_exists[where n = "length plan" and gen = ?gen]
  obtain j url where j: "j \<le> length plan" and ok: "\<forall>m<j. ?gen m = Inr (url m)"
    and fail: "j < length plan \<longrightarrow> (\<exists>e. ?gen j = Inl e)"
    by blast
  show ?thesis
  proof (cases "j < length plan")
    case True
    then obtain e where e: "?gen j = Inl e" using fail by blast
    let ?pre = "start_events st plan @
                  image_events url (ratio st) (referenceImages st) 0 j plan @
                  [Call_generateImage (plan ! j) (ratio st) (referenceImages st)]"
    let ?S = "st\<lparr>postData := None, copied := False, workflowState := generating_images,
                 segments := with_images url 0 j plan, trace := trace st @ ?pre\<rparr>"
    have "handleStartAutomation prov st = handleStartAutomation_catch e ?S"
      using assms Inr True ok e by (intro run_image_failure) simp_all
    moreover have "trace ?S = trace st @ ?pre" by simp
    moreover have "\<forall>x. Console_error x \<notin> set ?pre"
      by (simp add: no_console_error_before_catch)
    moreover have "hasApiKey ?S" using assms(1) by simp
    moreover have "credential_rejected e \<longrightarrow> truthy (getApiKey st)"
      using e client_failure_has_key[of st _ _ "ratio st" "referenceImages st" _ e "plan ! j"
          "image_reply prov j"]
      by blast
    ultimately show ?thesis by blast
  next
    case False
    then have jn: "j = length plan" using j by simp
    let ?X = "with_images url 0 (length plan) plan"
    let ?pre = "start_events st plan @
             image_events url (ratio st) (referenceImages st) 0 (length plan) plan @
             [SetWorkflowState generating_caption, Call_generateInstagramPost (topic st) ?X]"
    from run_images_done_state[OF assms Inr, of url] ok jn
    obtain S where S: "trace S = trace st @ ?pre" "hasApiKey S = hasApiKey st"
      and run: "handleStartAutomation prov st =
               (case generateInstagramPost st (topic st) ?X (post_reply prov) of
                  Inl e \<Rightarrow> handleStartAutomation_catch e S
                | Inr post \<Rightarrow> setWorkflowState completed (S\<lparr>postData := Some post\<rparr>))"
      by auto
    have clean: "\<forall>x. Console_error x \<notin> set ?pre"
      by (simp add: no_console_error_before_catch)
    show ?thesis
    proof (cases "generateInstagramPost st (topic st) ?X (post_reply prov)")
      case (Inl e)
      then have "handleStartAutomation prov st = handleStartAutomation_catch e S"
        unfolding run by simp
      moreover have "credential_rejected e \<longrightarrow> truthy (getApiKey st)"
        using Inl client_failure_has_key[of st "topic st" _ _ _ _ e _ _ ?X "post_reply prov"]
        by blast
      ultimately show ?thesis using S clean assms(1) by blast
    next
      case (Inr post)
      then have "trace (handleStartAutomation prov st) =
          trace st @ (?pre @ [SetWorkflowState completed])"
        unfolding run by (simp add: S setWorkflowState_def emit_def)
      moreover have "\<forall>x. Console_error x \<notin> set (?pre @ [SetWorkflowState completed])"
        using clean by simp
      ultimately show ?thesis by blast
    qed
  qed
qed

section \<open>The credential test\<close>

lemma persist_result:
  assumes "k \<noteq> []"
  shows "localStorage (onKeyUpdated (localStorage_setItem ''CUSTOM_GEMINI_API_KEY'' k st)) =
           (localStorage st)(''CUSTOM_GEMINI_API_KEY'' \<mapsto> k)"
    and "getApiKey (onKeyUpdated (localStorage_setItem ''CUSTOM_GEMINI_API_KEY'' k st)) = Some k"
    and "hasApiKey (onKeyUpdated (localStorage_setItem ''CUSTOM_GEMINI_API_KEY'' k st))"
    and "trace (onKeyUpdated (localStorage_setItem ''CUSTOM_GEMINI_API_KEY'' k st)) =
           trace st @ [OnKeyUpdated]"
  using assms
  by (simp_all add: onKeyUpdated_def localStorage_setItem_def checkApiKey_def emit_def
        getApiKey_def js_or_def truthy_def)

text \<open>
  A test with a candidate entered classifies what reaches its \<^verbatim>\<open>catch\<close> block (a thrown
  value, or the error of line 46 for a response without text) by the serialised text
  alone.
\<close>

lemma handleTest_caught:
  assumes "apiKey st \<noteq> []"
    and "rep = Threw e \<or>
         (rep = Responded response_text \<and> \<not> truthy response_text \<and>
          e = Thrown_object (engine @ [(''message'', JString ''No response'')]))"
  shows "handleTest rep engine st = handleTest_catch e (st\<lparr>status := status_testing\<rparr>)"
  using assms by (auto simp add: handleTest_def Let_def)

lemma handleTest_catch_overloaded:
  assumes "apiKey st \<noteq> []" and "service_overloaded (errorString_of e)"
  shows "status (handleTest_catch e st) = status_success"
    and "dialog (handleTest_catch e st) = Msg_valid_but_busy"
    and "localStorage (handleTest_catch e st) =
           (localStorage st)(''CUSTOM_GEMINI_API_KEY'' \<mapsto> apiKey st)"
    and "getApiKey (handleTest_catch e st) = Some (apiKey st)"
    and "hasApiKey (handleTest_catch e st)"
    and "trace (handleTest_catch e st) = trace st @ [OnKeyUpdated]"
proof -
  have eq: "handleTest_catch e st =
      onKeyUpdated (localStorage_setItem ''CUSTOM_GEMINI_API_KEY'' (apiKey st)
        (st\<lparr>status := status_success, dialog := Msg_valid_but_busy\<rparr>))"
    using assms(2) by (simp add: handleTest_catch_def Let_def)
  show "status (handleTest_catch e st) = status_success"
    "dialog (handleTest_catch e st) = Msg_valid_but_busy"
    unfolding eq
    by (simp_all add: onKeyUpdated_def localStorage_setItem_def checkApiKey_def emit_def)
  show "localStorage (handleTest_catch e st) =
           (localStorage st)(''CUSTOM_GEMINI_API_KEY'' \<mapsto> apiKey st)"
    "getApiKey (handleTest_catch e st) = Some (apiKey st)"
    "hasApiKey (handleTest_catch e st)"
    "trace (handleTest_catch e st) = trace st @ [OnKeyUpdated]"
    unfolding eq using persist_result[OF assms(1)] by simp_all
qed

lemma handleTest_catch_other:
  assumes "\<not> service_overloaded (errorString_of e)"
  shows "handleTest_catch e st =
           st\<lparr>status := status_error, dialog := Msg_connection_failed (js_or (message e) None)\<rparr>"
  using assms by (simp add: handleTest_catch_def Let_def)

lemma handleTest_keeps_credential:
  assumes "truthy (getApiKey st)"
  shows "truthy (getApiKey (handleTest rep engine st))"
proof (cases "apiKey st = []")
  case True
  then have "handleTest rep engine st = st\<lparr>dialog := Msg_enter_key, status := status_error\<rparr>"
    by (simp add: handleTest_def)
  then show ?thesis using assms by (simp add: getApiKey_def)
next
  case False
  let ?st1 = "st\<lparr>status := status_testing\<rparr>"
  have k1: "apiKey ?st1 \<noteq> []" "getApiKey ?st1 = getApiKey st"
    using False by (simp_all add: getApiKey_def)
  have caught: "truthy (getApiKey (handleTest_catch e ?st1))" for e
  proof (cases "service_overloaded (errorString_of e)")
    case True
    then show ?thesis
      using handleTest_catch_overloaded(4)[OF k1(1) True] False by (simp add: truthy_def)
  next
    case False
    then show ?thesis
      using assms by (simp add: handleTest_catch_other getApiKey_def)
  qed
  show ?thesis
  proof (cases rep)
    case (Threw e)
    then show ?thesis using False caught by (simp add: handleTest_def Let_def)
  next
    case (Responded response_text)
    show ?thesis
    proof (cases "truthy response_text")
      case True
      then have "handleTest rep engine st =
          onKeyUpdated (localStorage_setItem ''CUSTOM_GEMINI_API_KEY'' (apiKey st)
            (st\<lparr>status := status_success, dialog := Msg_test_ok\<rparr>))"
        using False Responded by (simp add: handleTest_def Let_def)
      then show ?thesis
        using persist_result(2)[OF False] False by (simp add: truthy_def)
    next
      case False
      then show ?thesis
        using \<open>apiKey st \<noteq> []\<close> Responded caught by (simp add: handleTest_def Let_def)
    qed
  qed
qed

text \<open>
  Claim C3, as stated, fails. The store holds \<open>KEY-1\<close>. In a run, the first call is
  rejected with "Requested entity was not found.": the run ends with the invalid-key
  notice, and the credential lookup still returns \<open>KEY-1\<close>. In a test of the candidate
  \<open>KEY-2\<close>, the provider answers that the key is not valid: the test reports an error,
  and the lookup still returns \<open>KEY-1\<close>.
\<close>

theorem rejected_credential_stays_stored_counterexample:
  "last (trace (handleStartAutomation rejecting_provider example_state)) = Alert Alert_invalid_key
   \<and> getApiKey (handleStartAutomation rejecting_provider example_state) = Some ''KEY-1''
   \<and> status (handleTest (Threw rejected_key_error)
               [] example_state) = status_error
   \<and> getApiKey (handleTest (Threw rejected_key_error)
               [] example_state) = Some ''KEY-1''"
proof -
  let ?e = "new_Error ''Requested entity was not found.''"
  let ?t = "rejected_key_error"
  have s: "hasApiKey example_state" "topic example_state \<noteq> []"
    by (simp_all add: example_state_def)
  have p: "generatePlan example_state (topic example_state) (count example_state)
      (ratio example_state) (referenceImages example_state) (plan_reply rejecting_provider)
      = Inl ?e"
    by (simp add: generatePlan_def truthy_def rejecting_provider_def)
  have rej: "credential_rejected ?e"
    by (simp add: credential_rejected_def)
  have a: "last (trace (handleStartAutomation rejecting_provider example_state))
             = Alert Alert_invalid_key"
    unfolding run_plan_failure[OF s p] catch_result
    using rej by (simp add: failure_events_def failure_alert_def)
  have "getApiKey (handleStartAutomation rejecting_provider example_state)
          = getApiKey example_state"
    by (rule getApiKey_cong) (simp_all add: handleStartAutomation_frame)
  then have b: "getApiKey (handleStartAutomation rejecting_provider example_state) = Some ''KEY-1''"
    by simp
  have k: "apiKey example_state \<noteq> []" by (simp add: example_state_def)
  have no: "\<not> service_overloaded (errorString_of ?t)"
    by (simp add: service_overloaded_def errorString_of_def rejected_key_error_def
          JSON_stringify_own_def json_quote_def json_escape_def json_value_def)
  have eq: "handleTest (Threw ?t) [] example_state =
      example_state\<lparr>status := status_error,
                     dialog := Msg_connection_failed (js_or (message ?t) None)\<rparr>"
    unfolding handleTest_caught[OF k disjI1[OF refl]] handleTest_catch_other[OF no] by simp
  have c: "status (handleTest (Threw ?t) [] example_state) = status_error"
    unfolding eq by simp
  have "getApiKey (handleTest (Threw ?t) [] example_state) = getApiKey example_state"
    unfolding eq by (simp add: getApiKey_def)
  then have d: "getApiKey (handleTest (Threw ?t) [] example_state) = Some ''KEY-1''"
    by simp
  show ?thesis using a b c d by simp
qed

text \<open>
  Claim C3, amended. A rejection never clears the store. A run writes nothing to it: the
  credential lookup returns after every run what it returned before. A run that catches
  a failure whose message contains "Requested entity was not found" ends idle, with the
  key flag cleared and the invalid-key notice as the last thing shown, and the lookup
  still returns a credential, the one the rejected call had used. A credential test of a
  candidate that fails with a thrown value whose serialised text holds none of the
  overload markers is reported as an error, with the failure's message, and writes
  nothing: the lookup returns what it returned before the test. And after any test,
  however it ends, the lookup returns a credential if it returned one before.
\<close>

theorem credential_rejection_leaves_store_unchanged:
  "getApiKey (handleStartAutomation prov st) = getApiKey st
   \<and> (Console_error e \<in> set (drop (length (trace st)) (trace (handleStartAutomation prov st)))
        \<and> credential_rejected e \<longrightarrow>
        workflowState (handleStartAutomation prov st) = idle \<and>
        \<not> hasApiKey (handleStartAutomation prov st) \<and>
        last (trace (handleStartAutomation prov st)) = Alert Alert_invalid_key \<and>
        truthy (getApiKey (handleStartAutomation prov st)))
   \<and> (apiKey st1 \<noteq> [] \<and> \<not> service_overloaded (errorString_of e1) \<longrightarrow>
        status (handleTest (Threw e1) engine1 st1) = status_error \<and>
        dialog (handleTest (Threw e1) engine1 st1) = Msg_connection_failed (js_or (message e1) None) \<and>
        localStorage (handleTest (Threw e1) engine1 st1) = localStorage st1 \<and>
        getApiKey (handleTest (Threw e1) engine1 st1) = getApiKey st1 \<and>
        trace (handleTest (Threw e1) engine1 st1) = trace st1)
   \<and> (truthy (getApiKey st2) \<longrightarrow> truthy (getApiKey (handleTest rep2 engine2 st2)))"
proof (intro conjI impI)
  show same: "getApiKey (handleStartAutomation prov st) = getApiKey st"
    by (rule getApiKey_cong) (simp_all add: handleStartAutomation_frame)
  assume h: "Console_error e \<in> set (drop (length (trace st)) (trace (handleStartAutomation prov st)))
        \<and> credential_rejected e"
  have started: "hasApiKey st \<and> topic st \<noteq> []"
  proof (rule ccontr)
    assume "\<not> (hasApiKey st \<and> topic st \<noteq> [])"
    then have "trace (handleStartAutomation prov st) = trace st"
      by (auto simp add: handleStartAutomation_def setIsKeyManagerOpen_def useEffect_isOpen_def
            split: option.splits)
    then show False using h by simp
  qed
  from run_ends[of st prov] started
  consider (caught) e0 S pre where "handleStartAutomation prov st = handleStartAutomation_catch e0 S"
      "trace S = trace st @ pre" "\<forall>x. Console_error x \<notin> set pre" "hasApiKey S"
      "credential_rejected e0 \<longrightarrow> truthy (getApiKey st)"
    | (clean) new where "trace (handleStartAutomation prov st) = trace st @ new"
      "\<forall>x. Console_error x \<notin> set new"
    by blast
  then have "workflowState (handleStartAutomation prov st) = idle \<and>
        \<not> hasApiKey (handleStartAutomation prov st) \<and>
        last (trace (handleStartAutomation prov st)) = Alert Alert_invalid_key \<and>
        truthy (getApiKey (handleStartAutomation prov st))"
  proof cases
    case caught
    have tr: "trace (handleStartAutomation prov st) = trace st @ pre @ failure_events e0"
      unfolding caught(1) catch_result using caught(2) by simp
    have "Console_error e \<in> set (pre @ failure_events e0)"
      using h unfolding tr by simp
    then have "e = e0"
      using caught(3) by (auto simp add: failure_events_def)
    then have rej: "credential_rejected e0" using h by simp
    have "workflowState (handleStartAutomation prov st) = idle"
      unfolding caught(1) catch_result by simp
    moreover have "\<not> hasApiKey (handleStartAutomation prov st)"
      unfolding caught(1) catch_result using rej by simp
    moreover have "last (trace (handleStartAutomation prov st)) = Alert Alert_invalid_key"
      unfolding tr using rej by (simp add: failure_events_def failure_alert_def)
    moreover have "truthy (getApiKey (handleStartAutomation prov st))"
      unfolding same using caught(5) rej by simp
    ultimately show ?thesis by simp
  next
    case clean
    then show ?thesis using h by simp
  qed
  then show "workflowState (handleStartAutomation prov st) = idle"
    "\<not> hasApiKey (handleStartAutomation prov st)"
    "last (trace (handleStartAutomation prov st)) = Alert Alert_invalid_key"
    "truthy (getApiKey (handleStartAutomation prov st))"
    by simp_all
next
  assume h: "apiKey st1 \<noteq> [] \<and> \<not> service_overloaded (errorString_of e1)"
  then have eq: "handleTest (Threw e1) engine1 st1 =
      st1\<lparr>status := status_error, dialog := Msg_connection_failed (js_or (message e1) None)\<rparr>"
    by (simp add: handleTest_caught handleTest_catch_other)
  show "status (handleTest (Threw e1) engine1 st1) = status_error"
    "dialog (handleTest (Threw e1) engine1 st1) = Msg_connection_failed (js_or (message e1) None)"
    "localStorage (handleTest (Threw e1) engine1 st1) = localStorage st1"
    "trace (handleTest (Threw e1) engine1 st1) = trace st1"
    unfolding eq by simp_all
  show "getApiKey (handleTest (Threw e1) engine1 st1) = getApiKey st1"
    unfolding eq by (simp add: getApiKey_def)
next
  assume "truthy (getApiKey st2)"
  then show "truthy (getApiKey (handleTest rep2 engine2 st2))"
    by (rule handleTest_keeps_credential)
qed

theorem credential_rejection_leaves_store_unchanged_witness:
  "Console_error (new_Error ''Requested entity was not found.'')
       \<in> set (drop (length (trace example_state))
                (trace (handleStartAutomation rejecting_provider example_state)))
   \<and> credential_rejected (new_Error ''Requested entity was not found.'')
   \<and> workflowState (handleStartAutomation rejecting_provider example_state) = idle
   \<and> \<not> hasApiKey (handleStartAutomation rejecting_provider example_state)
   \<and> getApiKey (handleStartAutomation rejecting_provider example_state) = Some ''KEY-1''
   \<and> apiKey example_state \<noteq> []
   \<and> \<not> service_overloaded
         (errorString_of rejected_key_error)
   \<and> status (handleTest (Threw rejected_key_error)
               [] example_state) = status_error
   \<and> getApiKey (handleTest (Threw rejected_key_error)
                 [] example_state) = Some ''KEY-1''
   \<and> truthy (getApiKey example_state)"
proof -
  let ?e = "new_Error ''Requested entity was not found.''"
  let ?t = "rejected_key_error"
  have s: "hasApiKey example_state" "topic example_state \<noteq> []"
    by (simp_all add: example_state_def)
  have p: "generatePlan example_state (topic example_state) (count example_state)
      (ratio example_state) (referenceImages example_state) (plan_reply rejecting_provider)
      = Inl ?e"
    by (simp add: generatePlan_def truthy_def rejecting_provider_def)
  have rej: "credential_rejected ?e"
    by (simp add: credential_rejected_def)
  have logged: "Console_error ?e
       \<in> set (drop (length (trace example_state))
                (trace (handleStartAutomation rejecting_provider example_state)))"
    unfolding run_plan_failure[OF s p] catch_result
    by (simp add: failure_events_def example_state_def)
  have k: "apiKey example_state \<noteq> []" by (simp add: example_state_def)
  have no: "\<not> service_overloaded (errorString_of ?t)"
    by (simp add: service_overloaded_def errorString_of_def rejected_key_error_def
          JSON_stringify_own_def json_quote_def json_escape_def json_value_def)
  have key: "truthy (getApiKey example_state)" by (simp add: truthy_def)
  show ?thesis
    using credential_rejection_leaves_store_unchanged
      [where prov = rejecting_provider and st = example_state and e = ?e
         and ?st1.0 = example_state and ?e1.0 = ?t and ?engine1.0 = "[]"
         and ?st2.0 = example_state and ?rep2.0 = "Threw ?t" and ?engine2.0 = "[]"]
      logged rej k no key
    by simp
qed

text \<open>
  Claim C6 holds of what the code is written to do and fails of what it does: the claim
  is right and the code is wrong. The candidate is \<open>KEY-2\<close>; the provider rejects it with
  an error whose message says that the key is not valid, and whose stack, as every
  stack does, names the script that threw, here \<open>index-25038.js\<close>. Line 49 serialises the
  stack with the message and line 52 finds 503 in it: the test reports success, tells
  the user the key is valid, and stores the rejected key, which the lookup then returns.
  The same happens for a response without text when the stack of the error of line 46
  holds these digits.
\<close>

theorem handleTest_stores_rejected_key:
  "message invalid_key_error = Some ''API key not valid. Please pass a valid API key.''
   \<and> getApiKey example_state = Some ''KEY-1''
   \<and> status (handleTest (Threw invalid_key_error) [] example_state) = status_success
   \<and> dialog (handleTest (Threw invalid_key_error) [] example_state) = Msg_valid_but_busy
   \<and> localStorage (handleTest (Threw invalid_key_error) [] example_state)
        ''CUSTOM_GEMINI_API_KEY'' = Some ''KEY-2''
   \<and> getApiKey (handleTest (Threw invalid_key_error) [] example_state) = Some ''KEY-2''
   \<and> status (handleTest (Responded None)
        [(''stack'', JString ''Error: No response at https://app.example/assets/index-25038.js:46:15'')]
        example_state) = status_success
   \<and> getApiKey (handleTest (Responded None)
        [(''stack'', JString ''Error: No response at https://app.example/assets/index-25038.js:46:15'')]
        example_state) = Some ''KEY-2''"
proof -
  let ?engine = "[(''stack'',
        JString ''Error: No response at https://app.example/assets/index-25038.js:46:15'')]"
  let ?n = "Thrown_object (?engine @ [(''message'', JString ''No response'')])"
  let ?st1 = "example_state\<lparr>status := status_testing\<rparr>"
  have m: "message invalid_key_error = Some ''API key not valid. Please pass a valid API key.''"
    by (simp add: message_def invalid_key_error_def)
  have k: "apiKey example_state \<noteq> []" "apiKey ?st1 \<noteq> []" "apiKey ?st1 = ''KEY-2''"
    by (simp_all add: example_state_def)
  have ov: "service_overloaded (errorString_of invalid_key_error)"
    by (simp add: service_overloaded_def errorString_of_def invalid_key_error_def
          JSON_stringify_own_def json_quote_def json_escape_def json_value_def)
  have ov': "service_overloaded (errorString_of ?n)"
    by (simp add: service_overloaded_def errorString_of_def
          JSON_stringify_own_def json_quote_def json_escape_def json_value_def)
  have e1: "handleTest (Threw invalid_key_error) [] example_state =
      handleTest_catch invalid_key_error ?st1"
    by (rule handleTest_caught[OF k(1)]) simp
  have e2: "handleTest (Responded None) ?engine example_state = handleTest_catch ?n ?st1"
    by (rule handleTest_caught[OF k(1), where response_text = None]) (simp add: truthy_def)
  show ?thesis
    unfolding e1 e2
    using m handleTest_catch_overloaded[OF k(2) ov] handleTest_catch_overloaded[OF k(2) ov'] k(3)
    by simp
qed

section \<open>Encrypted export and import\<close>

text \<open>
  Claim C10. An export with a non-empty key and passphrase whose encryption and download
  succeed offers the encrypted blob as the file \<open>api-keys.enc\<close>, and also writes the
  exported key into the store, replacing whatever credential was stored there, signals
  the update (after which the lookup returns the exported key and the key flag is set),
  and only then confirms to the user.
\<close>

theorem handleSave_overwrites_active_credential:
  assumes "apiKey st \<noteq> []" and "password st \<noteq> []"
    and "AES_encrypt lib (JSON_stringify_key lib (apiKey st)) (password st) = Some blob"
  shows "trace (handleSave lib st) =
           trace st @ [SaveAs blob ''api-keys.enc'', OnKeyUpdated, Alert Alert_saved]
    \<and> localStorage (handleSave lib st) =
          (localStorage st)(''CUSTOM_GEMINI_API_KEY'' \<mapsto> apiKey st)
    \<and> localStorage (handleSave lib st) ''CUSTOM_GEMINI_API_KEY'' = Some (apiKey st)
    \<and> getApiKey (handleSave lib st) = Some (apiKey st)
    \<and> hasApiKey (handleSave lib st)"
proof -
  have eq: "handleSave lib st =
      show_alert Alert_saved
        (onKeyUpdated (localStorage_setItem ''CUSTOM_GEMINI_API_KEY'' (apiKey st)
           (emit (SaveAs blob ''api-keys.enc'') st)))"
    using assms by (simp add: handleSave_def)
  have k: "apiKey (emit (SaveAs blob ''api-keys.enc'') st) = apiKey st"
    by (simp add: emit_def)
  show ?thesis
    unfolding eq
    using persist_result[OF assms(1), of "emit (SaveAs blob ''api-keys.enc'') st"]
    by (simp add: show_alert_def emit_def getApiKey_def)
qed

theorem handleSave_overwrites_active_credential_witness:
  "apiKey example_state \<noteq> [] \<and> password example_state \<noteq> []
   \<and> getApiKey example_state = Some ''KEY-1''
   \<and> getApiKey (handleSave example_library example_state) = Some ''KEY-2''
   \<and> trace (handleSave example_library example_state)
       = [SaveAs ''U2FsdGVkX1+blob'' ''api-keys.enc'', OnKeyUpdated, Alert Alert_saved]"
proof -
  have h: "apiKey example_state \<noteq> []" "password example_state \<noteq> []"
    "AES_encrypt example_library (JSON_stringify_key example_library (apiKey example_state))
       (password example_state) = Some ''U2FsdGVkX1+blob''"
    by (simp_all add: example_state_def example_library_def)
  have v: "apiKey example_state = ''KEY-2''" "trace example_state = []"
    by (simp_all add: example_state_def)
  show ?thesis
    using handleSave_overwrites_active_credential[OF h] h(1,2) v by simp
qed

text \<open>
  Claim C5, as stated, fails: the file decrypts under the entered passphrase to the text
  \<open>{}\<close>, which parses to an object without the credential field. The import then does
  nothing at all: the state after it is the state before it, with no alert in its
  trace.
\<close>

theorem import_without_field_counterexample:
  "AES_decrypt_utf8 example_library ''U2FsdGVkX1+blob'' (password example_state) = Plaintext ''{}''
   \<and> JSON_parse_payload example_library ''{}'' = Json_value None
   \<and> handleLoad example_library (Some ''U2FsdGVkX1+blob'') example_state = example_state
   \<and> trace (handleLoad example_library (Some ''U2FsdGVkX1+blob'') example_state) = []"
  by (simp add: handleLoad_def reader_onload_enc_def import_payload_def example_library_def
        example_state_def)

text \<open>
  Claim C5, amended. An import whose decryption succeeds but whose parsed structure has
  no credential field (or an empty one) never succeeds: the stored credential, the key
  in the dialog and the key flag stay as they were, and neither the update signal nor the
  success message appears. The code has no distinct failure reasons: every failure that
  an import reports (bytes that are not UTF-8, no plaintext, text that is not JSON, a
  \<^verbatim>\<open>null\<close> payload) shows one and the same alert.
\<close>

theorem import_without_field_changes_nothing:
  "(password st \<noteq> [] \<and> AES_decrypt_utf8 lib blob (password st) = Plaintext t \<and> t \<noteq> [] \<and>
      JSON_parse_payload lib t = Json_value k \<and> \<not> truthy k \<longrightarrow>
        localStorage (handleLoad lib (Some blob) st) = localStorage st \<and>
        getApiKey (handleLoad lib (Some blob) st) = getApiKey st \<and>
        apiKey (handleLoad lib (Some blob) st) = apiKey st \<and>
        hasApiKey (handleLoad lib (Some blob) st) = hasApiKey st \<and>
        OnKeyUpdated \<notin> set (drop (length (trace st)) (trace (handleLoad lib (Some blob) st))) \<and>
        Alert Alert_loaded
          \<notin> set (drop (length (trace st)) (trace (handleLoad lib (Some blob) st))))
   \<and> (password st1 \<noteq> [] \<and>
        (AES_decrypt_utf8 lib1 blob1 (password st1) = Malformed_utf8 \<or>
         AES_decrypt_utf8 lib1 blob1 (password st1) = Plaintext [] \<or>
         (\<exists>t1. AES_decrypt_utf8 lib1 blob1 (password st1) = Plaintext t1 \<and> t1 \<noteq> [] \<and>
               (JSON_parse_payload lib1 t1 = Not_json \<or> JSON_parse_payload lib1 t1 = Json_null)))
       \<longrightarrow> handleLoad lib1 (Some blob1) st1 = show_alert Alert_load_failed st1 \<and>
            trace (handleLoad lib1 (Some blob1) st1) = trace st1 @ [Alert Alert_load_failed])"
proof (intro conjI impI)
  assume h: "password st \<noteq> [] \<and> AES_decrypt_utf8 lib blob (password st) = Plaintext t \<and>
      t \<noteq> [] \<and> JSON_parse_payload lib t = Json_value k \<and> \<not> truthy k"
  then have "handleLoad lib (Some blob) st = st"
    by (cases k) (simp_all add: handleLoad_def reader_onload_enc_def import_payload_def truthy_def)
  then show "localStorage (handleLoad lib (Some blob) st) = localStorage st"
    "getApiKey (handleLoad lib (Some blob) st) = getApiKey st"
    "apiKey (handleLoad lib (Some blob) st) = apiKey st"
    "hasApiKey (handleLoad lib (Some blob) st) = hasApiKey st"
    "OnKeyUpdated \<notin> set (drop (length (trace st)) (trace (handleLoad lib (Some blob) st)))"
    "Alert Alert_loaded
          \<notin> set (drop (length (trace st)) (trace (handleLoad lib (Some blob) st)))"
    by simp_all
next
  assume h: "password st1 \<noteq> [] \<and>
        (AES_decrypt_utf8 lib1 blob1 (password st1) = Malformed_utf8 \<or>
         AES_decrypt_utf8 lib1 blob1 (password st1) = Plaintext [] \<or>
         (\<exists>t1. AES_decrypt_utf8 lib1 blob1 (password st1) = Plaintext t1 \<and> t1 \<noteq> [] \<and>
               (JSON_parse_payload lib1 t1 = Not_json \<or> JSON_parse_payload lib1 t1 = Json_null)))"
  then show eq: "handleLoad lib1 (Some blob1) st1 = show_alert Alert_load_failed st1"
    by (auto simp add: handleLoad_def reader_onload_enc_def import_payload_def)
  show "trace (handleLoad lib1 (Some blob1) st1) = trace st1 @ [Alert Alert_load_failed]"
    unfolding eq by (simp add: show_alert_def emit_def)
qed

theorem import_without_field_changes_nothing_witness:
  "password example_state \<noteq> []
   \<and> AES_decrypt_utf8 example_library ''U2FsdGVkX1+blob'' (password example_state)
       = Plaintext ''{}''
   \<and> JSON_parse_payload example_library ''{}'' = Json_value None
   \<and> getApiKey (handleLoad example_library (Some ''U2FsdGVkX1+blob'') example_state)
       = Some ''KEY-1''
   \<and> apiKey (handleLoad example_library (Some ''U2FsdGVkX1+blob'') example_state) = ''KEY-2''
   \<and> AES_decrypt_utf8 example_library ''other file'' (password example_state) = Malformed_utf8
   \<and> trace (handleLoad example_library (Some ''other file'') example_state)
       = [Alert Alert_load_failed]"
proof -
  have h: "password example_state \<noteq> []"
    "AES_decrypt_utf8 example_library ''U2FsdGVkX1+blob'' (password example_state)
       = Plaintext ''{}''"
    "JSON_parse_payload example_library ''{}'' = Json_value None"
    "AES_decrypt_utf8 example_library ''other file'' (password example_state) = Malformed_utf8"
    by (simp_all add: example_state_def example_library_def)
  have v: "apiKey example_state = ''KEY-2''" "trace example_state = []"
    by (simp_all add: example_state_def)
  show ?thesis
    using import_without_field_changes_nothing
      [where st = example_state and lib = example_library and blob = "''U2FsdGVkX1+blob''"
         and t = "''{}''" and k = None and ?st1.0 = example_state and ?lib1.0 = example_library
         and ?blob1.0 = "''other file''"]
      h v
    by (simp add: truthy_def show_alert_def emit_def)
qed

text \<open>
  Claim C4, as stated, fails in its second half. The key \<open>KEY-2\<close> is exported under the
  passphrase \<open>pw\<close>, which offers the file \<open>sample_blob\<close>. Imported under the different
  passphrase \<open>wrong132\<close>, the file decrypts to the text \<open>8\<close>, which is JSON; the import
  does not fail: it shows no alert and leaves the state as it was.
\<close>

theorem wrong_passphrase_import_counterexample:
  "trace (handleSave cryptojs_sample example_state)
     = [SaveAs sample_blob ''api-keys.enc'', OnKeyUpdated, Alert Alert_saved]
   \<and> ''wrong132'' \<noteq> password example_state
   \<and> handleLoad cryptojs_sample (Some sample_blob) (example_state\<lparr>password := ''wrong132''\<rparr>)
       = example_state\<lparr>password := ''wrong132''\<rparr>
   \<and> trace (handleLoad cryptojs_sample (Some sample_blob)
               (example_state\<lparr>password := ''wrong132''\<rparr>)) = []"
proof -
  have enc: "AES_encrypt cryptojs_sample
      (JSON_stringify_key cryptojs_sample (apiKey example_state)) (password example_state)
      = Some sample_blob"
    by (simp add: cryptojs_sample_def example_state_def sample_json_def)
  have save: "handleSave cryptojs_sample example_state =
      show_alert Alert_saved
        (onKeyUpdated (localStorage_setItem ''CUSTOM_GEMINI_API_KEY'' (apiKey example_state)
           (emit (SaveAs sample_blob ''api-keys.enc'') example_state)))"
    using enc by (simp add: handleSave_def example_state_def)
  have a: "trace (handleSave cryptojs_sample example_state)
     = [SaveAs sample_blob ''api-keys.enc'', OnKeyUpdated, Alert Alert_saved]"
    unfolding save
    by (simp add: show_alert_def onKeyUpdated_def localStorage_setItem_def checkApiKey_def
          emit_def example_state_def)
  have b: "''wrong132'' \<noteq> password example_state"
    by (simp add: example_state_def)
  have dec: "AES_decrypt_utf8 cryptojs_sample sample_blob ''wrong132'' = Plaintext ''8''"
    by (simp add: cryptojs_sample_def)
  have par: "JSON_parse_payload cryptojs_sample ''8'' = Json_value None"
    by (simp add: cryptojs_sample_def sample_json_def)
  have c: "handleLoad cryptojs_sample (Some sample_blob) (example_state\<lparr>password := ''wrong132''\<rparr>)
       = example_state\<lparr>password := ''wrong132''\<rparr>"
    using dec par by (simp add: handleLoad_def reader_onload_enc_def import_payload_def)
  show ?thesis
    using a b c by (simp add: example_state_def)
qed

text \<open>
  Claim C4, amended. Let the cipher decrypt what it encrypted and let \<^verbatim>\<open>JSON.parse\<close>
  read back what \<^verbatim>\<open>JSON.stringify\<close> wrote, at the credential \<open>cred\<close> and the passphrase
  \<open>pass\<close>, both non-empty. Then the export of \<open>cred\<close> under \<open>pass\<close> offers a file whose
  import under \<open>pass\<close> yields \<open>cred\<close>: it becomes the key of the dialog and the stored
  credential, and the update is signalled. Under any passphrase the import is decided
  by what decryption leaves, and the code has no failure value of its own for a wrong
  passphrase: when decryption leaves bytes that are not UTF-8, no text, text that is not
  JSON or \<^verbatim>\<open>null\<close>, the import shows its one failure alert and changes nothing else;
  when it leaves JSON text without a credential field, the import does nothing.
\<close>

theorem export_import_round_trip:
  assumes "cred \<noteq> []" and "pass \<noteq> []"
    and "AES_encrypt lib (JSON_stringify_key lib cred) pass = Some blob"
    and "AES_decrypt_utf8 lib blob pass = Plaintext (JSON_stringify_key lib cred)"
    and "JSON_stringify_key lib cred \<noteq> []"
    and "JSON_parse_payload lib (JSON_stringify_key lib cred) = Json_value (Some cred)"
  shows "(apiKey st = cred \<and> password st = pass \<longrightarrow>
            trace (handleSave lib st) =
              trace st @ [SaveAs blob ''api-keys.enc'', OnKeyUpdated, Alert Alert_saved])
    \<and> (password st1 = pass \<longrightarrow>
          apiKey (handleLoad lib (Some blob) st1) = cred \<and>
          localStorage (handleLoad lib (Some blob) st1) ''CUSTOM_GEMINI_API_KEY'' = Some cred \<and>
          getApiKey (handleLoad lib (Some blob) st1) = Some cred \<and>
          trace (handleLoad lib (Some blob) st1) = trace st1 @ [OnKeyUpdated, Alert Alert_loaded])
    \<and> (password st2 \<noteq> [] \<and>
        (AES_decrypt_utf8 lib blob (password st2) = Malformed_utf8 \<or>
         AES_decrypt_utf8 lib blob (password st2) = Plaintext [] \<or>
         (\<exists>t. AES_decrypt_utf8 lib blob (password st2) = Plaintext t \<and> t \<noteq> [] \<and>
              (JSON_parse_payload lib t = Not_json \<or> JSON_parse_payload lib t = Json_null)))
        \<longrightarrow> handleLoad lib (Some blob) st2 = st2\<lparr>trace := trace st2 @ [Alert Alert_load_failed]\<rparr>)
    \<and> (password st3 \<noteq> [] \<and>
        (\<exists>t k. AES_decrypt_utf8 lib blob (password st3) = Plaintext t \<and> t \<noteq> [] \<and>
              JSON_parse_payload lib t = Json_value k \<and> \<not> truthy k)
        \<longrightarrow> handleLoad lib (Some blob) st3 = st3)"
proof (intro conjI impI)
  assume "apiKey st = cred \<and> password st = pass"
  then have eq: "handleSave lib st =
      show_alert Alert_saved
        (onKeyUpdated (localStorage_setItem ''CUSTOM_GEMINI_API_KEY'' cred
           (emit (SaveAs blob ''api-keys.enc'') st)))"
    using assms by (simp add: handleSave_def)
  show "trace (handleSave lib st) =
              trace st @ [SaveAs blob ''api-keys.enc'', OnKeyUpdated, Alert Alert_saved]"
    unfolding eq
    by (simp add: show_alert_def onKeyUpdated_def localStorage_setItem_def checkApiKey_def
          emit_def)
next
  assume "password st1 = pass"
  then have eq: "handleLoad lib (Some blob) st1 =
      show_alert Alert_loaded
        (onKeyUpdated (localStorage_setItem ''CUSTOM_GEMINI_API_KEY'' cred (st1\<lparr>apiKey := cred\<rparr>)))"
    using assms by (simp add: handleLoad_def reader_onload_enc_def import_payload_def)
  show "apiKey (handleLoad lib (Some blob) st1) = cred"
    unfolding eq
    by (simp add: show_alert_def onKeyUpdated_def localStorage_setItem_def checkApiKey_def
          emit_def)
  show "localStorage (handleLoad lib (Some blob) st1) ''CUSTOM_GEMINI_API_KEY'' = Some cred"
    "getApiKey (handleLoad lib (Some blob) st1) = Some cred"
    "trace (handleLoad lib (Some blob) st1) = trace st1 @ [OnKeyUpdated, Alert Alert_loaded]"
    unfolding eq using persist_result[OF assms(1), of "st1\<lparr>apiKey := cred\<rparr>"]
    by (simp_all add: show_alert_def emit_def getApiKey_def)
next
  assume "password st2 \<noteq> [] \<and>
        (AES_decrypt_utf8 lib blob (password st2) = Malformed_utf8 \<or>
         AES_decrypt_utf8 lib blob (password st2) = Plaintext [] \<or>
         (\<exists>t. AES_decrypt_utf8 lib blob (password st2) = Plaintext t \<and> t \<noteq> [] \<and>
              (JSON_parse_payload lib t = Not_json \<or> JSON_parse_payload lib t = Json_null)))"
  then show "handleLoad lib (Some blob) st2 = st2\<lparr>trace := trace st2 @ [Alert Alert_load_failed]\<rparr>"
    by (auto simp add: handleLoad_def reader_onload_enc_def import_payload_def show_alert_def
          emit_def)
next
  assume "password st3 \<noteq> [] \<and>
        (\<exists>t k. AES_decrypt_utf8 lib blob (password st3) = Plaintext t \<and> t \<noteq> [] \<and>
              JSON_parse_payload lib t = Json_value k \<and> \<not> truthy k)"
  then obtain t k where h: "password st3 \<noteq> []"
    "AES_decrypt_utf8 lib blob (password st3) = Plaintext t" "t \<noteq> []"
    "JSON_parse_payload lib t = Json_value k" "\<not> truthy k"
    by blast
  then show "handleLoad lib (Some blob) st3 = st3"
    by (cases k) (simp_all add: handleLoad_def reader_onload_enc_def import_payload_def truthy_def)
qed

theorem export_import_round_trip_witness:
  "AES_encrypt cryptojs_sample (JSON_stringify_key cryptojs_sample ''KEY-2'') ''pw''
     = Some sample_blob
   \<and> AES_decrypt_utf8 cryptojs_sample sample_blob ''pw''
     = Plaintext (JSON_stringify_key cryptojs_sample ''KEY-2'')
   \<and> JSON_parse_payload cryptojs_sample (JSON_stringify_key cryptojs_sample ''KEY-2'')
     = Json_value (Some ''KEY-2'')
   \<and> trace (handleSave cryptojs_sample example_state)
     = [SaveAs sample_blob ''api-keys.enc'', OnKeyUpdated, Alert Alert_saved]
   \<and> apiKey (handleLoad cryptojs_sample (Some sample_blob) (example_state\<lparr>apiKey := []\<rparr>))
     = ''KEY-2''
   \<and> getApiKey (handleLoad cryptojs_sample (Some sample_blob) (example_state\<lparr>apiKey := []\<rparr>))
     = Some ''KEY-2''
   \<and> AES_decrypt_utf8 cryptojs_sample sample_blob ''wrong'' = Plaintext []
   \<and> handleLoad cryptojs_sample (Some sample_blob) (example_state\<lparr>password := ''wrong''\<rparr>)
     = example_state\<lparr>password := ''wrong'', trace := [Alert Alert_load_failed]\<rparr>
   \<and> AES_decrypt_utf8 cryptojs_sample sample_blob ''wrong132'' = Plaintext ''8''
   \<and> JSON_parse_payload cryptojs_sample ''8'' = Json_value None
   \<and> handleLoad cryptojs_sample (Some sample_blob) (example_state\<lparr>password := ''wrong132''\<rparr>)
     = example_state\<lparr>password := ''wrong132''\<rparr>"
proof -
  have h: "''KEY-2'' \<noteq> []" "''pw'' \<noteq> []"
    "AES_encrypt cryptojs_sample (JSON_stringify_key cryptojs_sample ''KEY-2'') ''pw''
       = Some sample_blob"
    "AES_decrypt_utf8 cryptojs_sample sample_blob ''pw''
       = Plaintext (JSON_stringify_key cryptojs_sample ''KEY-2'')"
    "JSON_stringify_key cryptojs_sample ''KEY-2'' \<noteq> []"
    "JSON_parse_payload cryptojs_sample (JSON_stringify_key cryptojs_sample ''KEY-2'')
       = Json_value (Some ''KEY-2'')"
    by (simp_all add: cryptojs_sample_def sample_json_def)
  have o: "AES_decrypt_utf8 cryptojs_sample sample_blob ''wrong'' = Plaintext []"
    "AES_decrypt_utf8 cryptojs_sample sample_blob ''wrong132'' = Plaintext ''8''"
    "JSON_parse_payload cryptojs_sample ''8'' = Json_value None"
    by (simp_all add: cryptojs_sample_def sample_json_def sample_blob_def)
  have v: "apiKey example_state = ''KEY-2''" "password example_state = ''pw''"
    "trace example_state = []"
    by (simp_all add: example_state_def)
  show ?thesis
    using export_import_round_trip[OF h,
        where st = example_state and ?st1.0 = "example_state\<lparr>apiKey := []\<rparr>"
          and ?st2.0 = "example_state\<lparr>password := ''wrong''\<rparr>"
          and ?st3.0 = "example_state\<lparr>password := ''wrong132''\<rparr>"]
      h(3,4,6) o v
    by (simp add: truthy_def)
qed

section \<open>The reference images\<close>

lemma handleImageUpload_rejects:
  "length (referenceImages st) + length files > 20 \<Longrightarrow>
     handleImageUpload files st = st\<lparr>trace := trace st @ [Alert Alert_max_20_images]\<rparr>"
  by (simp add: handleImageUpload_def show_alert_def emit_def)

lemma handleImageUpload_accepts:
  "length (referenceImages st) + length files \<le> 20 \<Longrightarrow>
     handleImageUpload files st = st\<lparr>pendingReaders := pendingReaders st @ files\<rparr>"
  by (simp add: handleImageUpload_def)

text \<open>
  When the pending readers all deliver a result and fire one after the other, every
  result is appended: nothing compares the number of images with the limit again.
\<close>

lemma readers_fire:
  "list_all truthy ps \<Longrightarrow> pendingReaders st = ps \<Longrightarrow>
     referenceImages (fold perform (replicate (length ps) (ReaderFires 0)) st)
       = referenceImages st @ map template ps"
proof (induction ps arbitrary: st)
  case Nil
  show ?case by simp
next
  case (Cons p ps)
  let ?st = "reader_fires 0 st"
  have st': "?st = (st\<lparr>pendingReaders := ps\<rparr>)\<lparr>referenceImages := referenceImages st @ [template p]\<rparr>"
    using Cons.prems by (simp add: reader_fires_def reader_onload_def)
  have "referenceImages (fold perform (replicate (length ps) (ReaderFires 0)) ?st)
       = referenceImages ?st @ map template ps"
    using Cons.prems by (intro Cons.IH) (simp_all add: st')
  then show ?case by (simp add: st')
qed

text \<open>
  Claim C9 holds of what the code is written to do and fails of what it does: the claim
  is right and the code is wrong. An upload that would take the set beyond 20 images is
  rejected and changes nothing (\<open>handleImageUpload_rejects\<close>), but the limit is compared
  with the set as it is when the files are chosen, and the images are appended later,
  when the readers deliver. From the start of the application: 11 files are chosen,
  then, before any reader has delivered, 11 more; both uploads pass the comparison
  against the empty set, and when the 22 readers have delivered the set holds 22
  images.
\<close>

theorem overlapping_uploads_exceed_20:
  "length (referenceImages
     (fold perform
        ([ImageUpload (replicate 11 (Some ''data:a'')),
          ImageUpload (replicate 11 (Some ''data:b''))]
         @ replicate 22 (ReaderFires 0))
        (initial_state Map.empty None None))) = 22"
proof -
  let ?init = "initial_state Map.empty None None"
  let ?ps = "replicate 11 (Some ''data:a'') @ replicate 11 (Some ''data:b'')"
  let ?st = "fold perform [ImageUpload (replicate 11 (Some ''data:a'')),
                           ImageUpload (replicate 11 (Some ''data:b''))] ?init"
  have i: "referenceImages ?init = []" "pendingReaders ?init = []"
    by (simp_all add: initial_state_def checkApiKey_def useEffect_isOpen_def)
  have st: "referenceImages ?st = []" "pendingReaders ?st = ?ps"
    using i by (simp_all add: handleImageUpload_def)
  have all: "list_all truthy ?ps"
    by (simp add: list_all_iff truthy_def)
  have len: "length ?ps = 22" by simp
  have "referenceImages (fold perform (replicate (length ?ps) (ReaderFires 0)) ?st)
       = referenceImages ?st @ map template ?ps"
    using all st(2) by (rule readers_fire)
  then have "length (referenceImages (fold perform (replicate 22 (ReaderFires 0)) ?st)) = 22"
    unfolding len using st(1) by simp
  then show ?thesis by simp
qed


end
